theory Spec2Isabelle
  imports Complex_Main "HOL-Library.List_Lexorder"
begin

section \<open>Emotion timeline analysis: the data model\<close>

text \<open>
  The program is \<^verbatim>\<open>analyze_emotion_timeline.py\<close>. A Python \<^verbatim>\<open>str\<close> is a sequence of
  Unicode code points, so a string is a list of natural numbers (one per code point):
  \<^verbatim>\<open>len\<close> is \<open>length\<close>, and the order of \<^verbatim>\<open>str\<close> is the lexicographic order of
  the lists. ASCII literals of the source are written through \<open>py\<close>.

  A Python \<^verbatim>\<open>float\<close> is a double. A float that the program holds (a score that a
  capability returns, a field of a day, a literal of the source) is written as the real
  number that Python prints for it, its shortest decimal. The doubles keep their order
  under this reading, so a comparison of the source is the comparison of the reals, and
  the literal \<^verbatim>\<open>0.2\<close> is the real \<open>0.2\<close>. Arithmetic and rounding work on the values of
  the doubles, which the section on floating-point numbers gives.
\<close>

type_synonym pystr = "nat list"

definition py :: "string \<Rightarrow> pystr" where
  "py s = map of_char s"

text \<open>A value read by \<^verbatim>\<open>json.loads\<close>; a dict is a list of key/value pairs.\<close>

datatype json =
    JNull
  | JBool bool
  | JInt int
  | JFloat real
  | JStr pystr
  | JList "json list"
  | JDict "(pystr \<times> json) list"

text \<open>Python's truth value of such a value (\<^verbatim>\<open>not value\<close> is its negation).\<close>

fun truthy :: "json \<Rightarrow> bool" where
  "truthy JNull = False"
| "truthy (JBool b) = b"
| "truthy (JInt i) = (i \<noteq> 0)"
| "truthy (JFloat r) = (r \<noteq> 0)"
| "truthy (JStr s) = (s \<noteq> [])"
| "truthy (JList xs) = (xs \<noteq> [])"
| "truthy (JDict kvs) = (kvs \<noteq> [])"

text \<open>\<^verbatim>\<open>d.get(k, default)\<close>.\<close>

definition dict_get :: "(pystr \<times> json) list \<Rightarrow> pystr \<Rightarrow> json \<Rightarrow> json" where
  "dict_get d k dflt = (case map_of d k of None \<Rightarrow> dflt | Some v \<Rightarrow> v)"

datatype error =
    AttributeError
  | TypeError
  | KeyError
  | ValueError
  | CapabilityError nat

record DayEmotion =
  date :: json
  sentiment_score :: real
  sentiment_label :: pystr
  subjectivity :: real
  dominant_emotions :: "pystr list"

section \<open>Floating-point numbers\<close>

text \<open>
  The integer nearest to a real, a tie going to the even one.
\<close>

definition round_half_even :: "real \<Rightarrow> int" where
  "round_half_even y =
     (let f = \<lfloor>y\<rfloor>; d = y - of_int f
      in if d < 1 / 2 then f else if d > 1 / 2 then f + 1 else if even f then f else f + 1)"

text \<open>
  \<open>fl x\<close> is the value of the double nearest to the real \<open>x\<close>, a tie going to the even
  mantissa: a double has 53 significant bits, so in the binade \<open>2 ^ e \<le> \<bar>x\<bar> < 2 ^ (e + 1)\<close>
  the doubles are the multiples of \<open>2 ^ (e - 52)\<close>, and below \<open>2 ^ -1022\<close> they are the
  multiples of \<open>2 ^ -1074\<close>. For the decimal that Python prints for a float, \<open>fl\<close> is the
  value of that float; for a literal of the source it is the value of the literal.
  Overflow, the infinities and the float that is not a number are not modelled: the
  binade has no upper bound here.
\<close>

definition binade :: "real \<Rightarrow> int" where
  "binade x = max \<lfloor>log 2 \<bar>x\<bar>\<rfloor> (-1022)"

definition fl :: "real \<Rightarrow> real" where
  "fl x =
     (if x = 0 then 0
      else of_int (round_half_even (x / 2 powi (binade x - 52))) * 2 powi (binade x - 52))"

text \<open>
  The float operations of the summary, on the values of doubles: a float divided by an
  \<^verbatim>\<open>int\<close> (which is first converted to the nearest double), and the difference of two
  floats; each is the exact result rounded to a double. The summary divides by the
  number of days of a list that is not empty, or by at least 1, never by 0.
\<close>

definition fdiv :: "real \<Rightarrow> nat \<Rightarrow> real" where
  "fdiv a n = fl (a / fl (real n))"

definition fsub :: "real \<Rightarrow> real \<Rightarrow> real" where
  "fsub a b = fl (a - b)"

text \<open>
  Python's built-in \<^verbatim>\<open>sum\<close> over floats is a parameter \<open>py_sum\<close> of the summary, from the
  values of the floats to the value of their sum, since its algorithm depends on the
  version of Python. Up to 3.11 CPython adds the floats from left to right, which is
  \<open>naive_sum\<close>. From 3.12 on it is the compensated summation of Neumaier, which is
  \<open>neumaier_sum\<close>: beside the running sum \<open>f\<close> it keeps the sum \<open>c\<close> of the rounding errors
  of the additions, and adds it at the end when it is not zero. In both, the first float
  is added to the integer 0 that \<^verbatim>\<open>sum\<close> starts from, which gives the float itself.
\<close>

fun naive_sum :: "real list \<Rightarrow> real" where
  "naive_sum [] = 0"
| "naive_sum (x # xs) = foldl (\<lambda>s y. fl (s + y)) x xs"

fun neumaier_loop :: "real \<Rightarrow> real \<Rightarrow> real list \<Rightarrow> real" where
  "neumaier_loop f c [] = (if c \<noteq> 0 then fl (f + c) else f)"
| "neumaier_loop f c (x # xs) =
     (let t = fl (f + x)
      in neumaier_loop t
           (if \<bar>f\<bar> \<ge> \<bar>x\<bar> then fl (c + fl (fl (f - t) + x))
            else fl (c + fl (fl (x - t) + f)))
           xs)"

fun neumaier_sum :: "real list \<Rightarrow> real" where
  "neumaier_sum [] = 0"
| "neumaier_sum (x # xs) = neumaier_loop x 0 xs"

text \<open>
  \<^verbatim>\<open>round(x, 3)\<close> rounds the value of the double \<open>x\<close> to the nearest multiple of 1/1000 (a
  tie, which only a double that lies exactly between two multiples makes, to the even
  one) and returns the double nearest to that decimal, which prints as the decimal.
  \<open>decimal3\<close> takes the value of the double, \<open>py_round3\<close> the decimal it prints as.
\<close>

definition decimal3 :: "real \<Rightarrow> real" where
  "decimal3 v = of_int (round_half_even (v * 1000)) / 1000"

definition py_round3 :: "real \<Rightarrow> real" where
  "py_round3 a = decimal3 (fl a)"

section \<open>Text normalisation and chunking\<close>

text \<open>
  \<^verbatim>\<open>s.replace(old, new)\<close> for a non-empty \<open>old\<close>: every occurrence, left to right,
  without overlap.
\<close>

fun str_replace :: "pystr \<Rightarrow> pystr \<Rightarrow> pystr \<Rightarrow> pystr" where
  "str_replace old new [] = []"
| "str_replace old new (c # cs) =
     (if old \<noteq> [] \<and> take (length old) (c # cs) = old
      then new @ str_replace old new (drop (length old) (c # cs))
      else c # str_replace old new cs)"

definition py_isspace :: "nat \<Rightarrow> bool" where
  "py_isspace c =
     (c \<in> {9, 10, 11, 12, 13, 28, 29, 30, 31, 32, 133, 160, 5760, 8232, 8233, 8239, 8287, 12288}
      \<or> (8192 \<le> c \<and> c \<le> 8202))"

text \<open>\<^verbatim>\<open>s.strip()\<close> removes the white space of Unicode at both ends.\<close>

definition strip :: "pystr \<Rightarrow> pystr" where
  "strip s = rev (dropWhile py_isspace (rev (dropWhile py_isspace s)))"

text \<open>\<^verbatim>\<open>sep.join(parts)\<close>.\<close>

fun str_join :: "pystr \<Rightarrow> pystr list \<Rightarrow> pystr" where
  "str_join sep [] = []"
| "str_join sep [x] = x"
| "str_join sep (x # y # ys) = x @ sep @ str_join sep (y # ys)"

text \<open>
  \<^verbatim>\<open>_norm_text\<close>: a falsy value gives the empty string; any other value must have a
  \<^verbatim>\<open>replace\<close> method, which among the values of JSON only a string has.
\<close>

fun norm_text :: "json \<Rightarrow> error + pystr" where
  "norm_text value =
     (if \<not> truthy value then Inr []
      else case value of
             JStr s \<Rightarrow> Inr (str_replace (py ''<br>'') [10] s)
           | _ \<Rightarrow> Inl AttributeError)"

text \<open>
  Python's slice \<^verbatim>\<open>xs[i:j]\<close>: a negative index counts from the end, and both are cut to
  the range of the list.
\<close>

definition slice_index :: "nat \<Rightarrow> int \<Rightarrow> nat" where
  "slice_index n i = (if i < 0 then nat (max 0 (int n + i)) else min (nat i) n)"

definition py_slice :: "'a list \<Rightarrow> int \<Rightarrow> int \<Rightarrow> 'a list" where
  "py_slice xs i j =
     (let a = slice_index (length xs) i; b = slice_index (length xs) j
      in take (b - a) (drop a xs))"

text \<open>
  The \<^verbatim>\<open>while\<close> loop of \<^verbatim>\<open>_chunk_text\<close>. With a chunk size of zero or less it never
  ends on a non-empty text, so the loop is a partial function: \<open>None\<close> is not returning.
\<close>

partial_function (option) chunk_loop ::
  "'a list \<Rightarrow> int \<Rightarrow> int \<Rightarrow> 'a list list \<Rightarrow> 'a list list option" where
  "chunk_loop text chunk_size start chunks =
     (if start < int (length text)
      then (let end = min (start + chunk_size) (int (length text))
            in chunk_loop text chunk_size end (chunks @ [py_slice text start end]))
      else Some chunks)"

declare chunk_loop.simps [code]

definition chunk_text :: "'a list \<Rightarrow> int \<Rightarrow> 'a list list option" where
  "chunk_text text chunk_size =
     (if int (length text) \<le> chunk_size then Some [text]
      else chunk_loop text chunk_size 0 [])"

text \<open>
  The reference the loop is compared with: cut off \<open>k\<close> elements at a time until nothing
  is left.
\<close>

fun chop :: "nat \<Rightarrow> 'a list \<Rightarrow> 'a list list" where
  "chop k xs = (if xs = [] \<or> k = 0 then [] else take k xs # chop k (drop k xs))"

declare chop.simps [simp del]

text \<open>
  \<^verbatim>\<open>_translate_ja_to_en\<close> calls the chunker with its default size 3000, where the loop
  always returns (\<open>chunk_text_default\<close> below), so the second case is never taken.
\<close>

definition default_chunks :: "pystr \<Rightarrow> pystr list" where
  "default_chunks text = (case chunk_text text 3000 of Some chunks \<Rightarrow> chunks | None \<Rightarrow> [])"

section \<open>The external capabilities\<close>

text \<open>
  The translator and the scorer are outside the program. Each call is recorded in a log \<open>lg\<close>,
  and what a capability answers may depend on the calls made so far: it returns a result
  or fails with an exception. (A translator that returns something that is not a string
  makes \<^verbatim>\<open>join\<close> raise inside the same \<^verbatim>\<open>try\<close> block, so it counts as a failure.)
\<close>

datatype call = Translate pystr | Score pystr

type_synonym translator = "call list \<Rightarrow> pystr \<Rightarrow> error + pystr"
type_synonym scorer = "call list \<Rightarrow> pystr \<Rightarrow> error + real \<times> real"

fun translate_chunks ::
  "translator \<Rightarrow> pystr list \<Rightarrow> pystr list \<Rightarrow> call list \<Rightarrow> (error + pystr list) \<times> call list" where
  "translate_chunks tr [] parts lg = (Inr parts, lg)"
| "translate_chunks tr (chunk # chunks) parts lg =
     (case tr lg chunk of
        Inl e \<Rightarrow> (Inl e, lg @ [Translate chunk])
      | Inr t \<Rightarrow> translate_chunks tr chunks (parts @ [t]) (lg @ [Translate chunk]))"

definition translate_ja_to_en ::
  "pystr \<Rightarrow> translator \<Rightarrow> call list \<Rightarrow> (error + pystr) \<times> call list" where
  "translate_ja_to_en text tr lg =
     (case translate_chunks tr (default_chunks text) [] lg of
        (Inl e, lg') \<Rightarrow> (Inl e, lg')
      | (Inr parts, lg') \<Rightarrow> (Inr (str_join [10] parts), lg'))"

section \<open>Classification\<close>

definition to_label :: "real \<Rightarrow> pystr" where
  "to_label polarity =
     (if polarity \<ge> 0.2 then py ''positive''
      else if polarity \<le> -0.2 then py ''negative''
      else py ''neutral'')"

definition to_emotions :: "real \<Rightarrow> real \<Rightarrow> pystr list" where
  "to_emotions polarity subj =
     (if polarity \<ge> 0.45 then
        (if subj \<ge> 0.45 then [py ''joy'', py ''confidence''] else [py ''calm'', py ''confidence''])
      else if polarity \<ge> 0.15 then [py ''calm'', py ''confidence'']
      else if polarity \<le> -0.45 then
        (if subj \<ge> 0.45 then [py ''frustration'', py ''anxiety''] else [py ''anxiety'', py ''calm''])
      else if polarity \<le> -0.15 then [py ''anxiety'', py ''calm'']
      else [py ''calm''])"

section \<open>Analysis of one record\<close>

definition text_keys :: "pystr list" where
  "text_keys = [py ''experience'', py ''reflection'', py ''abstraction'', py ''next_action'']"

text \<open>The generator given to \<^verbatim>\<open>join\<close>: the first field that raises ends it.\<close>

fun norm_fields :: "(pystr \<times> json) list \<Rightarrow> pystr list \<Rightarrow> error + pystr list" where
  "norm_fields r [] = Inr []"
| "norm_fields r (k # ks) =
     (case norm_text (dict_get r k (JStr [])) of
        Inl e \<Rightarrow> Inl e
      | Inr s \<Rightarrow> (case norm_fields r ks of Inl e \<Rightarrow> Inl e | Inr ss \<Rightarrow> Inr (s # ss)))"

definition joined_text :: "(pystr \<times> json) list \<Rightarrow> error + pystr" where
  "joined_text r =
     (case norm_fields r text_keys of
        Inl e \<Rightarrow> Inl e
      | Inr parts \<Rightarrow> Inr (strip (str_join [10] parts)))"

text \<open>Lines 90 to 102 of \<^verbatim>\<open>analyze_record\<close>: score a text, clamp, classify, round.\<close>

definition score_text ::
  "json \<Rightarrow> pystr \<Rightarrow> scorer \<Rightarrow> call list \<Rightarrow> (error + DayEmotion) \<times> call list" where
  "score_text d translated sc lg =
     (case sc lg translated of
        Inl e \<Rightarrow> (Inl e, lg @ [Score translated])
      | Inr (raw_polarity, raw_subjectivity) \<Rightarrow>
          (let polarity = max (-1) (min 1 raw_polarity);
               subj = max 0 (min 1 raw_subjectivity);
               label = to_label polarity;
               dominant = to_emotions polarity subj
           in (Inr \<lparr>date = d, sentiment_score = py_round3 polarity, sentiment_label = label,
                     subjectivity = py_round3 subj, dominant_emotions = dominant\<rparr>,
               lg @ [Score translated])))"

definition analyze_record ::
  "(pystr \<times> json) list \<Rightarrow> translator \<Rightarrow> scorer \<Rightarrow> call list
     \<Rightarrow> (error + DayEmotion) \<times> call list" where
  "analyze_record r tr sc lg =
     (let d = dict_get r (py ''date'') (JStr [])
      in case joined_text r of
           Inl e \<Rightarrow> (Inl e, lg)
         | Inr joined \<Rightarrow>
             if joined = [] then
               (Inr \<lparr>date = d, sentiment_score = 0, sentiment_label = py ''neutral'',
                      subjectivity = 0, dominant_emotions = [py ''calm'']\<rparr>, lg)
             else
               (case translate_ja_to_en joined tr lg of
                  (Inl e, lg') \<Rightarrow> score_text d joined sc lg'
                | (Inr translated, lg') \<Rightarrow> score_text d translated sc lg'))"

section \<open>The summary\<close>

record Summary =
  days :: nat
  average_sentiment :: real
  average_subjectivity :: real
  label_counts :: "(pystr \<times> nat) list"
  trend :: pystr
  most_common_emotions :: "(pystr \<times> nat) list"

text \<open>
  Both tallies are Python dicts, which keep their keys in the order of insertion, so they
  are association lists. \<^verbatim>\<open>label_counts[k] += 1\<close> raises KeyError on a missing key;
  \<^verbatim>\<open>emotion_counts[e] = emotion_counts.get(e, 0) + 1\<close> adds a missing key at the end.
\<close>

fun inc_label :: "(pystr \<times> nat) list \<Rightarrow> pystr \<Rightarrow> error + (pystr \<times> nat) list" where
  "inc_label [] k = Inl KeyError"
| "inc_label ((k', n) # rest) k =
     (if k' = k then Inr ((k', n + 1) # rest)
      else case inc_label rest k of Inl e \<Rightarrow> Inl e | Inr rest' \<Rightarrow> Inr ((k', n) # rest'))"

fun bump_emotion :: "(pystr \<times> nat) list \<Rightarrow> pystr \<Rightarrow> (pystr \<times> nat) list" where
  "bump_emotion [] e = [(e, 1)]"
| "bump_emotion ((k, n) # rest) e =
     (if k = e then (k, n + 1) # rest else (k, n) # bump_emotion rest e)"

fun tally ::
  "DayEmotion list \<Rightarrow> (pystr \<times> nat) list \<Rightarrow> (pystr \<times> nat) list
     \<Rightarrow> error + (pystr \<times> nat) list \<times> (pystr \<times> nat) list" where
  "tally [] lc ec = Inr (lc, ec)"
| "tally (d # ds) lc ec =
     (case inc_label lc (sentiment_label d) of
        Inl e \<Rightarrow> Inl e
      | Inr lc' \<Rightarrow> tally ds lc' (fold (\<lambda>e acc. bump_emotion acc e) (dominant_emotions d) ec))"

text \<open>
  \<^verbatim>\<open>sorted(items, key=..., reverse=True)\<close>: the list is reversed, sorted by a stable
  ascending sort, and reversed again, so equal keys keep their order.
\<close>

definition sorted_reverse :: "('a \<Rightarrow> 'k::linorder) \<Rightarrow> 'a list \<Rightarrow> 'a list" where
  "sorted_reverse f xs = rev (sort_key f (rev xs))"

text \<open>
  \<^verbatim>\<open>summarize\<close>. The scores of the days enter the sums with the values of their doubles;
  the literals \<^verbatim>\<open>0.12\<close> and \<^verbatim>\<open>-0.12\<close> that \<open>delta\<close> is compared with are the doubles
  \<open>fl 0.12\<close> and its negation.
\<close>

definition summarize :: "(real list \<Rightarrow> real) \<Rightarrow> DayEmotion list \<Rightarrow> error + Summary" where
  "summarize py_sum ds =
     (if ds = [] then
        Inr \<lparr>days = 0, average_sentiment = 0, average_subjectivity = 0,
             label_counts = [(py ''positive'', 0), (py ''neutral'', 0), (py ''negative'', 0)],
             trend = py ''insufficient_data'', most_common_emotions = []\<rparr>
      else
        (let n = length ds;
             avg = fdiv (py_sum (map (\<lambda>d. fl (sentiment_score d)) ds)) n;
             avg_subjectivity = fdiv (py_sum (map (\<lambda>d. fl (subjectivity d)) ds)) n
         in case tally ds [(py ''positive'', 0), (py ''neutral'', 0), (py ''negative'', 0)] [] of
              Inl e \<Rightarrow> Inl e
            | Inr (lc, emotion_counts) \<Rightarrow>
                (let tr =
                   (if n \<ge> 4 then
                      (let first = fdiv (py_sum (map (\<lambda>d. fl (sentiment_score d))
                                                     (take (n div 2) ds)))
                                     (max 1 (n div 2));
                           second = fdiv (py_sum (map (\<lambda>d. fl (sentiment_score d))
                                                      (drop (n div 2) ds)))
                                      (max 1 (n - n div 2));
                           delta = fsub second first
                       in if delta > fl 0.12 then py ''improving''
                          else if delta < - fl 0.12 then py ''declining''
                          else py ''stable'')
                    else py ''stable'');
                     common_emotions = take 3 (sorted_reverse snd emotion_counts)
                 in Inr \<lparr>days = n, average_sentiment = decimal3 avg,
                          average_subjectivity = decimal3 avg_subjectivity,
                          label_counts = lc, trend = tr,
                          most_common_emotions = common_emotions\<rparr>)))"


section \<open>The whole run\<close>

record Output =
  summary :: Summary
  timeline :: "DayEmotion list"

fun is_str :: "json \<Rightarrow> bool" where
  "is_str (JStr s) = True"
| "is_str _ = False"

text \<open>The string that a date holds when it is one.\<close>

fun str_of :: "json \<Rightarrow> pystr" where
  "str_of (JStr s) = s"
| "str_of _ = []"

text \<open>
  Python's \<^verbatim>\<open>==\<close> and \<^verbatim>\<open><\<close> on values of JSON. Numbers (with the booleans, which are
  the integers 0 and 1) are equal and ordered by value, a float by the value of its
  double; strings are equal and ordered by code points; lists are
  equal element by element, and ordered by the first pair of elements that are not equal
  or, when one list is a beginning of the other, by length; dicts are equal when they
  have the same keys with equal values. Any other \<^verbatim>\<open><\<close> raises TypeError.
\<close>

fun num_val :: "json \<Rightarrow> real option" where
  "num_val (JBool b) = Some (of_bool b)"
| "num_val (JInt i) = Some (of_int i)"
| "num_val (JFloat x) = Some (fl x)"
| "num_val _ = None"

fun py_eq :: "json \<Rightarrow> json \<Rightarrow> bool" where
  "py_eq JNull JNull = True"
| "py_eq (JStr a) (JStr b) = (a = b)"
| "py_eq (JList xs) (JList ys) = list_all2 py_eq xs ys"
| "py_eq (JDict a) (JDict b) =
     (set (map fst a) = set (map fst b)
      \<and> (\<forall>(k, v) \<in> set a. map_of a k = Some v \<longrightarrow>
            (case map_of b k of None \<Rightarrow> False | Some w \<Rightarrow> py_eq v w)))"
| "py_eq x y = (case (num_val x, num_val y) of (Some a, Some b) \<Rightarrow> a = b | _ \<Rightarrow> False)"

fun py_lt :: "json \<Rightarrow> json \<Rightarrow> error + bool" where
  "py_lt (JStr a) (JStr b) = Inr (a < b)"
| "py_lt (JList []) (JList ys) = Inr (ys \<noteq> [])"
| "py_lt (JList (x # xs)) (JList []) = Inr False"
| "py_lt (JList (x # xs)) (JList (y # ys)) =
     (if py_eq x y then py_lt (JList xs) (JList ys) else py_lt x y)"
| "py_lt x y = (case (num_val x, num_val y) of
                  (Some a, Some b) \<Rightarrow> Inr (a < b)
                | _ \<Rightarrow> Inl TypeError)"

text \<open>
  \<^verbatim>\<open>analyzed.sort(key=lambda d: d.date)\<close>, a stable sort that compares the dates with
  \<^verbatim>\<open><\<close>. A list of at most one day is not compared at all. When every two dates can be
  compared, the result is the one stable ordering, which insertion from the right
  builds. Python's sort raises TypeError at the first comparison that fails; it is taken
  here to meet such a pair of dates whenever the list holds one.
\<close>

fun insort_day :: "DayEmotion \<Rightarrow> DayEmotion list \<Rightarrow> DayEmotion list" where
  "insort_day x [] = [x]"
| "insort_day x (y # ys) =
     (if py_lt (date y) (date x) = Inr True then y # insort_day x ys else x # y # ys)"

definition comparable_dates :: "DayEmotion list \<Rightarrow> bool" where
  "comparable_dates ds =
     list_all (\<lambda>a. list_all (\<lambda>b. \<not> isl (py_lt (date a) (date b))) ds) ds"

definition sort_days :: "DayEmotion list \<Rightarrow> error + DayEmotion list" where
  "sort_days ds =
     (if length ds \<le> 1 then Inr ds
      else if comparable_dates ds then Inr (foldr insort_day ds [])
      else Inl TypeError)"

text \<open>The loop of \<^verbatim>\<open>main\<close> over the records: an element that is not a dict is skipped.\<close>

fun analyze_all ::
  "json list \<Rightarrow> translator \<Rightarrow> scorer \<Rightarrow> DayEmotion list \<Rightarrow> call list
     \<Rightarrow> (error + DayEmotion list) \<times> call list" where
  "analyze_all [] tr sc analyzed lg = (Inr analyzed, lg)"
| "analyze_all (x # xs) tr sc analyzed lg =
     (case x of
        JDict r \<Rightarrow>
          (case analyze_record r tr sc lg of
             (Inl e, lg') \<Rightarrow> (Inl e, lg')
           | (Inr d, lg') \<Rightarrow> analyze_all xs tr sc (analyzed @ [d]) lg')
      | _ \<Rightarrow> analyze_all xs tr sc analyzed lg)"

text \<open>
  \<^verbatim>\<open>main\<close> from the parsed payload on, with the \<^verbatim>\<open>sum\<close> of the Python that runs it. The
  output file is written by the last statement only, so a run that raises (\<open>Inl\<close>)
  writes no file, and \<open>Inr out\<close> is a run that writes \<open>out\<close>.
\<close>

definition main ::
  "(real list \<Rightarrow> real) \<Rightarrow> json \<Rightarrow> translator \<Rightarrow> scorer \<Rightarrow> (error + Output) \<times> call list" where
  "main py_sum payload tr sc =
     (case payload of
        JDict p \<Rightarrow>
          (case dict_get p (py ''records'') (JList []) of
             JList records \<Rightarrow>
               (case analyze_all records tr sc [] [] of
                  (Inl e, lg) \<Rightarrow> (Inl e, lg)
                | (Inr analyzed, lg) \<Rightarrow>
                    (case sort_days analyzed of
                       Inl e \<Rightarrow> (Inl e, lg)
                     | Inr sorted_days \<Rightarrow>
                         (case summarize py_sum sorted_days of
                            Inl e \<Rightarrow> (Inl e, lg)
                          | Inr s \<Rightarrow> (Inr \<lparr>summary = s, timeline = sorted_days\<rparr>, lg))))
           | _ \<Rightarrow> (Inl ValueError, []))
      | _ \<Rightarrow> (Inl AttributeError, []))"

text \<open>Capabilities that fail on every call.\<close>

definition failing_translator :: translator where
  "failing_translator lg chunk = Inl (CapabilityError 0)"

definition failing_scorer :: scorer where
  "failing_scorer lg t = Inl (CapabilityError 1)"

definition constant_scorer :: "real \<Rightarrow> real \<Rightarrow> scorer" where
  "constant_scorer p s lg t = Inr (p, s)"

text \<open>A translator that answers every chunk, and two records to run the analysis on.\<close>

definition suffix_translator :: translator where
  "suffix_translator lg chunk = Inr (chunk @ py ''!'')"

definition blank_record :: "(pystr \<times> json) list" where
  "blank_record =
     [(py ''date'', JStr (py ''2024-05-01'')), (py ''experience'', JStr (py '' <br> '')),
      (py ''reflection'', JNull)]"

definition good_record :: "(pystr \<times> json) list" where
  "good_record =
     [(py ''date'', JStr (py ''2024-05-02'')), (py ''experience'', JStr (py ''good<br>day'')),
      (py ''next_action'', JInt 0)]"

text \<open>
  Words for the claims about the tally of emotions: the tags of all days in the order of
  the scan, the position at which a tag is first seen there, the number of days that
  carry a tag, the order "more often, or as often and seen earlier", and the tally that
  the loop of \<^verbatim>\<open>summarize\<close> builds from a list of tags.
\<close>

definition all_tags :: "DayEmotion list \<Rightarrow> pystr list" where
  "all_tags ds = concat (map dominant_emotions ds)"

definition first_seen :: "'a list \<Rightarrow> 'a \<Rightarrow> nat" where
  "first_seen xs x = length (takeWhile (\<lambda>y. y \<noteq> x) xs)"

definition days_with :: "pystr \<Rightarrow> DayEmotion list \<Rightarrow> nat" where
  "days_with t ds = length (filter (\<lambda>d. t \<in> set (dominant_emotions d)) ds)"

definition ranks_before :: "pystr list \<Rightarrow> pystr \<times> nat \<Rightarrow> pystr \<times> nat \<Rightarrow> bool" where
  "ranks_before tags a b =
     (snd a > snd b \<or> (snd a = snd b \<and> first_seen tags (fst a) < first_seen tags (fst b)))"

definition tally_tags :: "pystr list \<Rightarrow> (pystr \<times> nat) list" where
  "tally_tags ts = fold (\<lambda>e acc. bump_emotion acc e) ts []"

text \<open>Days to run the summary on.\<close>

definition rising_days :: "DayEmotion list" where
  "rising_days =
     [\<lparr>date = JStr (py ''2024-05-01''), sentiment_score = 0, sentiment_label = py ''neutral'',
       subjectivity = 0, dominant_emotions = [py ''calm'']\<rparr>,
      \<lparr>date = JStr (py ''2024-05-02''), sentiment_score = 0, sentiment_label = py ''neutral'',
       subjectivity = 0, dominant_emotions = [py ''calm'']\<rparr>,
      \<lparr>date = JStr (py ''2024-05-03''), sentiment_score = 0.5, sentiment_label = py ''positive'',
       subjectivity = 0.5, dominant_emotions = [py ''joy'', py ''confidence'']\<rparr>,
      \<lparr>date = JStr (py ''2024-05-04''), sentiment_score = 0.5, sentiment_label = py ''positive'',
       subjectivity = 0.5, dominant_emotions = [py ''joy'', py ''confidence'']\<rparr>]"


definition mixed_days :: "DayEmotion list" where
  "mixed_days = rising_days @
     [\<lparr>date = JStr (py ''2024-05-05''), sentiment_score = -0.3, sentiment_label = py ''negative'',
       subjectivity = 0.4, dominant_emotions = [py ''anxiety'', py ''calm'']\<rparr>]"

text \<open>The elements of \<open>records\<close> that are dicts, and what such an element holds.\<close>

fun is_dict :: "json \<Rightarrow> bool" where
  "is_dict (JDict r) = True"
| "is_dict _ = False"

fun dict_of :: "json \<Rightarrow> (pystr \<times> json) list" where
  "dict_of (JDict r) = r"
| "dict_of _ = []"

text \<open>A record without a date, three of whose text fields are falsy.\<close>

definition undated_record :: "(pystr \<times> json) list" where
  "undated_record =
     [(py ''experience'', JStr (py ''good<br>day'')), (py ''reflection'', JNull),
      (py ''abstraction'', JList []), (py ''next_action'', JStr [])]"

text \<open>
  What the data model says of a day: its label is one of the three, and (as the five
  lists of \<^verbatim>\<open>_to_emotions\<close> have it) no tag is listed twice.
\<close>

definition well_formed_day :: "DayEmotion \<Rightarrow> bool" where
  "well_formed_day d =
     (sentiment_label d \<in> {py ''positive'', py ''neutral'', py ''negative''}
      \<and> distinct (dominant_emotions d))"

text \<open>What a run writes for no records at all.\<close>

definition empty_output :: Output where
  "empty_output =
     \<lparr>summary =
        \<lparr>days = 0, average_sentiment = 0, average_subjectivity = 0,
         label_counts = [(py ''positive'', 0), (py ''neutral'', 0), (py ''negative'', 0)],
         trend = py ''insufficient_data'', most_common_emotions = []\<rparr>,
      timeline = []\<rparr>"

section \<open>Properties of floating-point rounding\<close>

text \<open>
  Rounding to the nearest integer moves a number by at most a half and keeps it on its
  side of every integer.
\<close>

lemma round_half_even_cases:
  "round_half_even y = \<lfloor>y\<rfloor>
   \<or> (round_half_even y = \<lfloor>y\<rfloor> + 1 \<and> 1 / 2 \<le> y - of_int \<lfloor>y\<rfloor>)"
  by (auto simp: round_half_even_def Let_def)

lemma round_half_even_close: "\<bar>of_int (round_half_even y) - y\<bar> \<le> 1 / 2"
proof -
  have "of_int \<lfloor>y\<rfloor> \<le> y" "y < of_int \<lfloor>y\<rfloor> + 1" by linarith+
  then show ?thesis
    by (auto simp: round_half_even_def Let_def)
qed

lemma round_half_even_ge:
  assumes "of_int m \<le> y"
  shows "m \<le> round_half_even y"
proof -
  from assms have "m \<le> \<lfloor>y\<rfloor>" by (simp add: le_floor_iff)
  with round_half_even_cases[of y] show ?thesis by auto
qed

lemma round_half_even_le:
  assumes "y \<le> of_int m"
  shows "round_half_even y \<le> m"
proof -
  have f: "\<lfloor>y\<rfloor> \<le> m" using assms by (simp add: floor_le_iff)
  show ?thesis
  proof (cases "round_half_even y = \<lfloor>y\<rfloor>")
    case True
    with f show ?thesis by simp
  next
    case False
    with round_half_even_cases[of y]
    have r: "round_half_even y = \<lfloor>y\<rfloor> + 1" and "1 / 2 \<le> y - of_int \<lfloor>y\<rfloor>" by auto
    with assms have "of_int \<lfloor>y\<rfloor> < (of_int m :: real)" by linarith
    then have "\<lfloor>y\<rfloor> < m" by (simp only: of_int_less_iff)
    with r show ?thesis by simp
  qed
qed

lemma binade_small: "x \<noteq> 0 \<Longrightarrow> \<bar>x\<bar> \<le> 1 \<Longrightarrow> binade x \<le> 0"
proof -
  assume "x \<noteq> 0" "\<bar>x\<bar> \<le> 1"
  then have "log 2 \<bar>x\<bar> \<le> 0" by simp
  then have "\<lfloor>log 2 \<bar>x\<bar>\<rfloor> \<le> 0" by (simp add: floor_le_iff)
  then show ?thesis by (simp add: binade_def)
qed

lemma binadeI:
  assumes "2 powi e \<le> \<bar>x\<bar>" "\<bar>x\<bar> < 2 powi (e + 1)" "-1022 \<le> e"
  shows "binade x = e"
proof -
  have "(0::real) < 2 powi e" by simp
  with assms(1) have pos: "0 < \<bar>x\<bar>" by linarith
  have p: "(2::real) powr of_int n = 2 powi n" for n
    by (simp add: powr_real_of_int')
  have "2 powr (of_int e) \<le> \<bar>x\<bar>" using assms(1) by (simp only: p)
  moreover have "\<bar>x\<bar> < 2 powr (of_int e + 1)"
    using assms(2) p[of "e + 1"] by simp
  ultimately have "\<lfloor>log 2 \<bar>x\<bar>\<rfloor> = e"
    using pos by (subst floor_log_eq_powr_iff) simp_all
  with assms(3) show ?thesis by (simp add: binade_def)
qed

text \<open>
  The double nearest to a number whose binade is known: a multiple of \<open>2 ^ -(52 + k)\<close>
  for a number from \<open>2 ^ -k\<close> up to \<open>2 ^ (1 - k)\<close>, and a multiple of \<open>2 ^ (k - 52)\<close> for
  one from \<open>2 ^ k\<close> up to \<open>2 ^ (k + 1)\<close>.
\<close>

lemma fl_small_value:
  assumes "1 / 2 ^ k \<le> \<bar>x\<bar>" "\<bar>x\<bar> < 2 / 2 ^ k" "k \<le> 1022"
  shows "fl x = of_int (round_half_even (x * 2 ^ (52 + k))) / 2 ^ (52 + k)"
proof -
  have a: "(2::real) powi (- int k) = 1 / 2 ^ k"
    by (simp add: power_int_minus field_simps)
  have "(2::real) powi (- int k + 1) = 2 powi (- int k) * 2 powi 1"
    by (rule power_int_add) simp
  then have b: "(2::real) powi (- int k + 1) = 2 / 2 ^ k"
    by (simp only: a) simp
  have "binade x = - int k"
  proof (rule binadeI)
    show "2 powi (- int k) \<le> \<bar>x\<bar>" using assms(1) by (simp only: a)
    show "\<bar>x\<bar> < 2 powi (- int k + 1)" using assms(2) by (simp only: b)
    show "- 1022 \<le> - int k" using assms(3) by simp
  qed
  moreover have "x \<noteq> 0"
  proof
    assume "x = 0"
    with assms(1) have "1 / 2 ^ k \<le> (0::real)" by simp
    moreover have "(0::real) < 1 / 2 ^ k" by simp
    ultimately show False by linarith
  qed
  moreover have "(2::real) powi (- int k - 52) = 1 / 2 ^ (52 + k)"
  proof -
    have "- int k - 52 = - int (52 + k)" by simp
    then show ?thesis by (simp only: power_int_minus power_int_of_nat) (simp add: field_simps)
  qed
  ultimately show ?thesis by (simp add: fl_def)
qed

lemma fl_large_value:
  assumes "2 ^ k \<le> \<bar>x\<bar>" "\<bar>x\<bar> < 2 * 2 ^ k" "k \<le> 52"
  shows "fl x = of_int (round_half_even (x * 2 ^ (52 - k))) / 2 ^ (52 - k)"
proof -
  have a: "(2::real) powi (int k) = 2 ^ k" by simp
  have "(2::real) powi (int k + 1) = 2 powi (int k) * 2 powi 1"
    by (rule power_int_add) simp
  then have b: "(2::real) powi (int k + 1) = 2 * 2 ^ k"
    by (simp only: a) simp
  have "binade x = int k"
  proof (rule binadeI)
    show "2 powi (int k) \<le> \<bar>x\<bar>" using assms(1) by (simp only: a)
    show "\<bar>x\<bar> < 2 powi (int k + 1)" using assms(2) by (simp only: b)
    show "- 1022 \<le> int k" by simp
  qed
  moreover have "x \<noteq> 0"
  proof
    assume "x = 0"
    with assms(1) have "2 ^ k \<le> (0::real)" by simp
    moreover have "(0::real) < 2 ^ k" by simp
    ultimately show False by linarith
  qed
  moreover have "(2::real) powi (int k - 52) = 1 / 2 ^ (52 - k)"
  proof -
    have "int k - 52 = - int (52 - k)" using assms(3) by simp
    then show ?thesis by (simp only: power_int_minus power_int_of_nat) (simp add: field_simps)
  qed
  ultimately show ?thesis by (simp add: fl_def)
qed

lemma fl_1: "fl 1 = 1"
  by (subst fl_large_value[where k = 0]) (simp_all add: round_half_even_def)


lemma fl_nonneg: "0 \<le> x \<Longrightarrow> 0 \<le> fl x"
  using round_half_even_ge[of 0 "x / 2 powi (binade x - 52)"]
  by (simp add: fl_def zero_le_mult_iff)

lemma fl_nonpos: "x \<le> 0 \<Longrightarrow> fl x \<le> 0"
  using round_half_even_le[of "x / 2 powi (binade x - 52)" 0]
  by (simp add: fl_def mult_le_0_iff divide_le_0_iff)

text \<open>
  Rounding to a double keeps the sign, and a number of the interval from -1 to 1 stays in
  it and moves by at most \<open>2 ^ -53\<close>.
\<close>

lemma fl_unit:
  assumes "\<bar>x\<bar> \<le> 1"
  shows "\<bar>fl x\<bar> \<le> 1 \<and> \<bar>fl x - x\<bar> \<le> 1 / 2 ^ 53"
proof (cases "x = 0")
  case True
  then show ?thesis by (simp add: fl_def)
next
  case False
  define n where "n = nat (52 - binade x)"
  have b: "binade x \<le> 0" using False assms by (rule binade_small)
  then have e: "binade x - 52 = - int n" by (simp add: n_def)
  have q: "(2::real) powi (binade x - 52) = 1 / 2 ^ n"
    unfolding e by (simp only: power_int_minus power_int_of_nat) (simp add: field_simps)
  have n: "52 \<le> n" using b by (simp add: n_def)
  define r where "r = round_half_even (x * 2 ^ n)"
  have fl: "fl x = of_int r / 2 ^ n" using False by (simp add: fl_def q r_def)
  have "x \<le> 1" "- 1 \<le> x" using assms by (simp_all add: abs_le_iff)
  then have "x * 2 ^ n \<le> 1 * 2 ^ n" "(- 1) * 2 ^ n \<le> x * 2 ^ n"
    by (simp_all only: mult_right_mono zero_le_power zero_le_numeral)
  then have "x * 2 ^ n \<le> of_int (2 ^ n)" "of_int (- (2 ^ n)) \<le> x * 2 ^ n"
    by simp_all
  then have "r \<le> 2 ^ n" "- (2 ^ n) \<le> r"
    unfolding r_def by (auto intro: round_half_even_le round_half_even_ge)
  then have "(of_int r :: real) \<le> of_int (2 ^ n)" "(of_int (- (2 ^ n)) :: real) \<le> of_int r"
    by (simp_all only: of_int_le_iff)
  then have 1: "\<bar>fl x\<bar> \<le> 1" by (simp add: fl abs_le_iff field_simps)
  have "\<bar>of_int r - x * 2 ^ n\<bar> \<le> 1 / 2" unfolding r_def by (rule round_half_even_close)
  then have "\<bar>of_int r / 2 ^ n - x\<bar> \<le> 1 / 2 / 2 ^ n"
    by (simp add: abs_le_iff field_simps)
  also have "\<dots> \<le> 1 / 2 / 2 ^ 52"
  proof -
    have p: "(2::real) ^ 52 \<le> 2 ^ n" using n by (intro power_increasing) simp_all
    show ?thesis by (rule divide_left_mono[OF p]) simp_all
  qed
  finally have "\<bar>fl x - x\<bar> \<le> 1 / 2 ^ 53" by (simp add: fl)
  with 1 show ?thesis by simp
qed





text \<open>
  The two algorithms of \<^verbatim>\<open>sum\<close> differ: on the doubles of 0.1, 0.2 and 0.3 the sum from
  left to right is the double that prints as 0.6000000000000001, the compensated sum the
  one that prints as 0.6.
\<close>

lemma sum_versions_differ:
  "naive_sum [fl (1 / 10), fl (2 / 10), fl (3 / 10)] = 1351079888211149 / 2 ^ 51"
  "neumaier_sum [fl (1 / 10), fl (2 / 10), fl (3 / 10)] = 5404319552844595 / 2 ^ 53"
proof -
  have f0: "fl (1 / 10) = 3602879701896397 / 2 ^ 55"
    by (subst fl_small_value[where k = 4]) (simp_all add: round_half_even_def)
  have f1: "fl (2 / 10) = 3602879701896397 / 2 ^ 54"
    by (subst fl_small_value[where k = 3]) (simp_all add: round_half_even_def)
  have f2: "fl (3 / 10) = 5404319552844595 / 2 ^ 54"
    by (subst fl_small_value[where k = 2]) (simp_all add: round_half_even_def)
  have f3: "fl (3602879701896397 / 2 ^ 55 + 3602879701896397 / 2 ^ 54) = 1351079888211149 / 2 ^ 52"
    by (subst fl_small_value[where k = 2]) (simp_all add: round_half_even_def)
  have f4: "fl (1351079888211149 / 2 ^ 52 + 5404319552844595 / 2 ^ 54) = 1351079888211149 / 2 ^ 51"
    by (subst fl_small_value[where k = 1]) (simp_all add: round_half_even_def)
  have f5: "fl (3602879701896397 / 2 ^ 54 - 1351079888211149 / 2 ^ 52) = - (1801439850948199 / 2 ^ 54)"
    by (subst fl_small_value[where k = 4]) (simp_all add: round_half_even_def)
  have f6: "fl (- (1801439850948199 / 2 ^ 54) + 3602879701896397 / 2 ^ 55) = - (1 / 2 ^ 55)"
    by (subst fl_small_value[where k = 55]) (simp_all add: round_half_even_def)
  have f7: "fl (0 + (- (1 / 2 ^ 55))) = - (1 / 2 ^ 55)"
    by (subst fl_small_value[where k = 55]) (simp_all add: round_half_even_def)
  have f8: "fl (1351079888211149 / 2 ^ 52 - 1351079888211149 / 2 ^ 51) = - (1351079888211149 / 2 ^ 52)"
    by (subst fl_small_value[where k = 2]) (simp_all add: round_half_even_def)
  have f9: "fl (- (1351079888211149 / 2 ^ 52) + 5404319552844595 / 2 ^ 54) = - (1 / 2 ^ 54)"
    by (subst fl_small_value[where k = 54]) (simp_all add: round_half_even_def)
  have f10: "fl (- (1 / 2 ^ 55) + (- (1 / 2 ^ 54))) = - (3 / 2 ^ 55)"
    by (subst fl_small_value[where k = 54]) (simp_all add: round_half_even_def)
  have f11: "fl (1351079888211149 / 2 ^ 51 + (- (3 / 2 ^ 55))) = 5404319552844595 / 2 ^ 53"
    by (subst fl_small_value[where k = 1]) (simp_all add: round_half_even_def)
  have c1: "(\<bar>3602879701896397 / 2 ^ 54\<bar> \<le> \<bar>3602879701896397 / 2 ^ 55 :: real\<bar>) = False" by simp
  have c2: "(\<bar>5404319552844595 / 2 ^ 54\<bar> \<le> \<bar>1351079888211149 / 2 ^ 52 :: real\<bar>) = True" by simp
  have c3: "(- (3 / 2 ^ 55) = (0::real)) = False" by simp
  show "naive_sum [fl (1 / 10), fl (2 / 10), fl (3 / 10)] = 1351079888211149 / 2 ^ 51"
    by (simp only: naive_sum.simps foldl.simps f0 f1 f2 f3 f4 f5 f6 f7 f8 f9 f10 f11)
  show "neumaier_sum [fl (1 / 10), fl (2 / 10), fl (3 / 10)] = 5404319552844595 / 2 ^ 53"
    by (simp only: neumaier_sum.simps neumaier_loop.simps Let_def f0 f1 f2 f3 f4 f5 f6 f7 f8 f9 f10 f11 c1 c2 c3 if_True if_False not_False_eq_True)
qed

text \<open>
  The scorer's answer 0.0025 is stored as 0.003: the double nearest to 0.0025 lies above
  it, so that no tie is met.
\<close>

lemma py_round3_above_tie: "py_round3 (25 / 10000) = 3 / 1000"
  unfolding py_round3_def
  by (subst fl_small_value[where k = 9]) (simp_all add: round_half_even_def decimal3_def)

lemma decimal3_lower:
  assumes "of_int a / 1000 \<le> v"
  shows "of_int a / 1000 \<le> decimal3 v"
proof -
  from assms have "of_int a \<le> v * 1000" by simp
  then have "a \<le> round_half_even (v * 1000)" by (rule round_half_even_ge)
  then show ?thesis by (simp add: decimal3_def divide_right_mono)
qed

lemma decimal3_upper:
  assumes "v \<le> of_int b / 1000"
  shows "decimal3 v \<le> of_int b / 1000"
proof -
  from assms have "v * 1000 \<le> of_int b" by simp
  then have "round_half_even (v * 1000) \<le> b" by (rule round_half_even_le)
  then show ?thesis by (simp add: decimal3_def divide_right_mono)
qed

lemma decimal3_close: "\<bar>decimal3 v - v\<bar> \<le> 1 / 2000"
proof -
  have "\<bar>of_int (round_half_even (v * 1000)) - v * 1000\<bar> \<le> 1 / 2"
    by (rule round_half_even_close)
  then show ?thesis by (simp add: decimal3_def abs_le_iff field_simps)
qed

lemma py_round3_unit:
  "-1 \<le> x \<Longrightarrow> x \<le> 1 \<Longrightarrow> -1 \<le> py_round3 x \<and> py_round3 x \<le> 1"
  "0 \<le> x \<Longrightarrow> x \<le> 1 \<Longrightarrow> 0 \<le> py_round3 x \<and> py_round3 x \<le> 1"
proof -
  have u: "-1 \<le> py_round3 x \<and> py_round3 x \<le> 1" if "-1 \<le> x" "x \<le> 1" for x
  proof -
    from that have "\<bar>x\<bar> \<le> 1" by (simp add: abs_le_iff)
    then have "\<bar>fl x\<bar> \<le> 1" using fl_unit by blast
    then have "of_int (-1000) / 1000 \<le> fl x" "fl x \<le> of_int 1000 / 1000"
      by (simp_all add: abs_le_iff)
    then have "of_int (-1000) / 1000 \<le> decimal3 (fl x)" "decimal3 (fl x) \<le> of_int 1000 / 1000"
      by (simp_all only: decimal3_lower decimal3_upper)
    then show ?thesis by (simp add: py_round3_def)
  qed
  show "-1 \<le> x \<Longrightarrow> x \<le> 1 \<Longrightarrow> -1 \<le> py_round3 x \<and> py_round3 x \<le> 1" by (rule u)
  show "0 \<le> py_round3 x \<and> py_round3 x \<le> 1" if "0 \<le> x" "x \<le> 1"
  proof -
    from that have "of_int 0 / 1000 \<le> fl x" by (simp add: fl_nonneg)
    then have "of_int 0 / 1000 \<le> decimal3 (fl x)" by (rule decimal3_lower)
    with u[of x] that show ?thesis by (simp add: py_round3_def)
  qed
qed

lemma py_round3_close:
  assumes "\<bar>x\<bar> \<le> 1"
  shows "\<bar>py_round3 x - fl x\<bar> \<le> 1 / 2000" "\<bar>py_round3 x - x\<bar> \<le> 1 / 2000 + 1 / 2 ^ 53"
proof -
  show 1: "\<bar>py_round3 x - fl x\<bar> \<le> 1 / 2000"
    unfolding py_round3_def by (rule decimal3_close)
  from assms have "\<bar>fl x - x\<bar> \<le> 1 / 2 ^ 53" using fl_unit by blast
  with 1 show "\<bar>py_round3 x - x\<bar> \<le> 1 / 2000 + 1 / 2 ^ 53" by linarith
qed

lemma py_round3_decimal: "\<exists>m::int. py_round3 x = of_int m / 1000"
  by (auto simp: py_round3_def decimal3_def)

lemma py_round3_values:
  "py_round3 (1 / 2) = 1 / 2" "py_round3 (1 / 4) = 1 / 4" "py_round3 1 = 1"
  "py_round3 (499 / 2500) = 1 / 5" "py_round3 0 = 0"
proof -
  show "py_round3 (1 / 2) = 1 / 2"
    unfolding py_round3_def
    by (subst fl_small_value[where k = 1]) (simp_all add: round_half_even_def decimal3_def)
  show "py_round3 (1 / 4) = 1 / 4"
    unfolding py_round3_def
    by (subst fl_small_value[where k = 2]) (simp_all add: round_half_even_def decimal3_def)
  show "py_round3 1 = 1"
    by (simp add: py_round3_def fl_1 decimal3_def round_half_even_def)
  show "py_round3 (499 / 2500) = 1 / 5"
    unfolding py_round3_def
    by (subst fl_small_value[where k = 3]) (simp_all add: round_half_even_def decimal3_def)
  show "py_round3 0 = 0"
    by (simp add: py_round3_def fl_def decimal3_def round_half_even_def)
qed

section \<open>Properties of the chunker\<close>

lemma concat_chop: "0 < k \<Longrightarrow> concat (chop k xs) = xs"
proof (induction k xs rule: chop.induct)
  case (1 k xs)
  then show ?case by (subst chop.simps) auto
qed

lemma chop_bound: "c \<in> set (chop k xs) \<Longrightarrow> length c \<le> k \<and> c \<noteq> []"
proof (induction k xs rule: chop.induct)
  case (1 k xs)
  from "1.prems" show ?case
    by (subst (asm) chop.simps) (use "1.IH" in \<open>auto split: if_splits\<close>)
qed

lemma chop_nth: "i < length (chop k xs) \<Longrightarrow> chop k xs ! i = take k (drop (i * k) xs)"
proof (induction k xs arbitrary: i rule: chop.induct)
  case (1 k xs)
  show ?case
  proof (cases "xs = [] \<or> k = 0")
    case True
    with "1.prems" show ?thesis by (simp add: chop.simps)
  next
    case False
    then have eq: "chop k xs = take k xs # chop k (drop k xs)"
      by (subst chop.simps) simp
    show ?thesis
    proof (cases i)
      case 0
      then show ?thesis by (simp add: eq)
    next
      case (Suc j)
      with "1.prems" eq have "j < length (chop k (drop k xs))" by simp
      from "1.IH"[OF False this] show ?thesis by (simp add: eq Suc add.commute)
    qed
  qed
qed

text \<open>
  With a positive chunk size the loop returns, and what it appends to the chunks it
  already has is the text from \<open>start\<close> on, cut every \<open>k\<close> elements.
\<close>

lemma chunk_loop_chop:
  assumes "0 < k" "0 \<le> start" "start \<le> int (length text)"
  shows "chunk_loop text k start acc = Some (acc @ chop (nat k) (drop (nat start) text))"
  using assms
proof (induction "length text - nat start" arbitrary: start acc rule: less_induct)
  case less
  show ?case
  proof (cases "start < int (length text)")
    case False
    with less.prems have "drop (nat start) text = []" by simp
    with False show ?thesis by (subst chunk_loop.simps) (simp add: chop.simps)
  next
    case True
    define e where "e = min (start + k) (int (length text))"
    have e: "start < e" "e \<le> int (length text)" "0 \<le> e"
      using True less.prems by (auto simp: e_def)
    have sl: "py_slice text start e = take (nat k) (drop (nat start) text)"
      using e less.prems True
      by (auto simp: py_slice_def slice_index_def Let_def e_def min_def
            nat_diff_distrib nat_add_distrib)
    have dr: "drop (nat e) text = drop (nat k) (drop (nat start) text)"
      using e less.prems True
      by (auto simp: e_def min_def nat_add_distrib add.commute)
    have ne: "drop (nat start) text \<noteq> []" using True less.prems by simp
    have IH: "chunk_loop text k e (acc @ [py_slice text start e])
      = Some ((acc @ [py_slice text start e]) @ chop (nat k) (drop (nat e) text))"
      using e less.prems by (intro less.hyps) auto
    have "chunk_loop text k start acc = chunk_loop text k e (acc @ [py_slice text start e])"
      using True by (subst chunk_loop.simps) (simp add: e_def Let_def)
    also note IH
    finally have "chunk_loop text k start acc
      = Some (acc @ take (nat k) (drop (nat start) text)
                # chop (nat k) (drop (nat k) (drop (nat start) text)))"
      by (simp add: sl dr)
    moreover have "chop (nat k) (drop (nat start) text)
      = take (nat k) (drop (nat start) text)
          # chop (nat k) (drop (nat k) (drop (nat start) text))"
      using ne less.prems(1) by (subst chop.simps) simp
    ultimately show ?thesis by simp
  qed
qed

lemma chunk_text_chop:
  assumes "0 < k" "\<not> int (length text) \<le> k"
  shows "chunk_text text k = Some (chop (nat k) text)"
  using assms chunk_loop_chop[of k 0 "text" "[]"] by (simp add: chunk_text_def)

text \<open>
  Claim C5. For every string and every positive maximum chunk length the chunker returns,
  and its chunks are contiguous pieces of the string that do not overlap (chunk \<open>i\<close> is
  the \<open>k\<close> elements from position \<open>i * k\<close> on): their concatenation is the string, no
  chunk is longer than the maximum, and a string no longer than the maximum, the empty
  one too, gives the single chunk that is the string.
\<close>

theorem chunk_text_roundtrip:
  assumes "0 < k"
  shows "\<exists>cs. chunk_text text k = Some cs \<and> concat cs = text
           \<and> (\<forall>c \<in> set cs. int (length c) \<le> k)
           \<and> (\<forall>i < length cs. cs ! i = take (nat k) (drop (i * nat k) text))
           \<and> (int (length text) \<le> k \<longrightarrow> cs = [text])"
proof (cases "int (length text) \<le> k")
  case True
  then show ?thesis by (simp add: chunk_text_def)
next
  case False
  have "chunk_text text k = Some (chop (nat k) text)"
    using False assms by (rule chunk_text_chop[rotated])
  moreover have "int (length c) \<le> k" if "c \<in> set (chop (nat k) text)" for c
  proof -
    from chop_bound[OF that] have "length c \<le> nat k" by simp
    with assms show ?thesis by linarith
  qed
  ultimately show ?thesis
    using False assms by (simp add: concat_chop chop_nth)
qed

theorem chunk_text_roundtrip_witness:
  "(0::int) < 2 \<and> (\<exists>cs. chunk_text (py ''abcde'') 2 = Some cs \<and> concat cs = py ''abcde''
     \<and> (\<forall>c \<in> set cs. int (length c) \<le> 2)
     \<and> (\<forall>i < length cs. cs ! i = take (nat 2) (drop (i * nat 2) (py ''abcde'')))
     \<and> (int (length (py ''abcde'')) \<le> 2 \<longrightarrow> cs = [py ''abcde'']))"
  using chunk_text_roundtrip[of 2 "py ''abcde''"] by simp

text \<open>The call of the translation adapter, with the default size, always returns.\<close>

lemma chunk_text_default: "chunk_text text 3000 = Some (default_chunks text)"
proof (cases "int (length text) \<le> 3000")
  case True
  then show ?thesis by (simp add: default_chunks_def chunk_text_def)
next
  case False
  then have "chunk_text text 3000 = Some (chop (nat 3000) text)"
    by (intro chunk_text_chop) simp_all
  then show ?thesis by (simp add: default_chunks_def)
qed

section \<open>Properties of the classifier\<close>

lemma label_distinct:
  "py ''positive'' \<noteq> py ''neutral''" "py ''negative'' \<noteq> py ''neutral''"
  "py ''positive'' \<noteq> py ''negative''"
  by (simp_all add: py_def)

text \<open>
  Claim C3. The dominant emotions of a polarity \<open>p\<close> and a subjectivity \<open>s\<close> are given
  by the cascade, first match first: \<open>p \<ge> 0.45\<close> gives joy and confidence when
  \<open>s \<ge> 0.45\<close> and calm and confidence otherwise; else \<open>p \<ge> 0.15\<close> gives calm and
  confidence; else \<open>p \<le> -0.45\<close> gives frustration and anxiety when \<open>s \<ge> 0.45\<close> and
  anxiety and calm otherwise; else \<open>p \<le> -0.15\<close> gives anxiety and calm; otherwise calm
  alone. At \<open>p = 0.45, s = 0.45\<close> this is joy and confidence, at \<open>p = 0.44, s = 0.9\<close>
  calm and confidence, and \<open>p = 0.18\<close> has the label neutral with the emotions calm and
  confidence.
\<close>

theorem to_emotions_cascade:
  "to_emotions p s =
     (if p \<ge> 0.45 then (if s \<ge> 0.45 then [py ''joy'', py ''confidence'']
                          else [py ''calm'', py ''confidence''])
      else if p \<ge> 0.15 then [py ''calm'', py ''confidence'']
      else if p \<le> -0.45 then (if s \<ge> 0.45 then [py ''frustration'', py ''anxiety'']
                                else [py ''anxiety'', py ''calm''])
      else if p \<le> -0.15 then [py ''anxiety'', py ''calm'']
      else [py ''calm''])
   \<and> to_emotions 0.45 0.45 = [py ''joy'', py ''confidence'']
   \<and> to_emotions 0.44 0.9 = [py ''calm'', py ''confidence'']
   \<and> to_label 0.18 = py ''neutral'' \<and> to_emotions 0.18 s = [py ''calm'', py ''confidence'']"
  by (simp add: to_emotions_def to_label_def)

theorem to_emotions_cascade_witness:
  "to_emotions (-0.5) 0.3 = [py ''anxiety'', py ''calm'']"
  using to_emotions_cascade[of "-0.5" "0.3"] by simp

text \<open>
  Claim C4. The label depends on the polarity \<open>p\<close> alone: positive from 0.2 on, negative
  down from -0.2, and neutral exactly for the \<open>p\<close> strictly between -0.2 and 0.2, so
  that neither boundary value is neutral.
\<close>

theorem to_label_bands:
  "to_label p = (if p \<ge> 0.2 then py ''positive''
                 else if p \<le> -0.2 then py ''negative'' else py ''neutral'')
   \<and> (to_label p = py ''neutral'' \<longleftrightarrow> -0.2 < p \<and> p < 0.2)
   \<and> (to_label p = py ''positive'' \<longleftrightarrow> p \<ge> 0.2)
   \<and> (to_label p = py ''negative'' \<longleftrightarrow> p \<le> -0.2)
   \<and> to_label 0.2 = py ''positive'' \<and> to_label (-0.2) = py ''negative''
   \<and> to_label 0.1999 = py ''neutral''"
  using label_distinct by (auto simp: to_label_def)

theorem to_label_bands_witness:
  "to_label 0.1 = py ''neutral'' \<and> to_label 0.2 \<noteq> py ''neutral''
   \<and> to_label (-0.2) \<noteq> py ''neutral''"
  using to_label_bands[of "0.1"] to_label_bands[of "0.2"] to_label_bands[of "-0.2"]
  by simp

section \<open>Properties of the run\<close>

text \<open>
  Claim C1, as the specification states it, fails: a payload without the \<open>records\<close> key
  is read with the default \<open>[]\<close>, and the run writes the summary of zero days.
\<close>

theorem missing_records_counterexample:
  "main naive_sum (JDict []) failing_translator failing_scorer = (Inr empty_output, [])"
  by (simp add: main_def dict_get_def sort_days_def summarize_def empty_output_def)

text \<open>
  Claim C1, amended. When the \<open>records\<close> field of the payload is present and is not a
  list, the run raises ValueError before any capability is called and writes no output;
  when the key is absent the run takes the records to be the empty list, and writes the
  summary of zero days with an empty timeline.
\<close>

theorem main_records_field:
  "(map_of p (py ''records'') = Some v \<and> (\<forall>xs. v \<noteq> JList xs)
      \<longrightarrow> main py_sum (JDict p) tr sc = (Inl ValueError, []))
   \<and> (map_of p (py ''records'') = None
      \<longrightarrow> main py_sum (JDict p) tr sc = (Inr empty_output, []))"
  by (cases v) (auto simp: main_def dict_get_def sort_days_def summarize_def empty_output_def)

theorem main_records_field_witness:
  "main naive_sum (JDict [(py ''records'', JStr (py ''x''))]) failing_translator failing_scorer
     = (Inl ValueError, [])
   \<and> main naive_sum (JDict [(py ''other'', JNull)]) failing_translator failing_scorer
     = (Inr empty_output, [])"
  using main_records_field[where p = "[(py ''records'', JStr (py ''x''))]"
      and v = "JStr (py ''x'')" and py_sum = naive_sum and tr = failing_translator
      and sc = failing_scorer]
    main_records_field[where p = "[(py ''other'', JNull)]" and v = JNull
      and py_sum = naive_sum and tr = failing_translator and sc = failing_scorer]
  by (simp add: py_def)

section \<open>Properties of the analysis of one record\<close>

text \<open>
  Claim C6. When the four text fields of a record normalise and join to a string that is
  empty after stripping, the analysis returns the day with score 0, label neutral,
  subjectivity 0 and the one emotion calm, whatever the translator and the scorer are,
  and the log of calls is the one it started with: neither capability is called.
\<close>

theorem empty_record_short_circuit:
  assumes "joined_text r = Inr []"
  shows "analyze_record r tr sc lg =
           (Inr \<lparr>date = dict_get r (py ''date'') (JStr []), sentiment_score = 0,
                 sentiment_label = py ''neutral'', subjectivity = 0,
                 dominant_emotions = [py ''calm'']\<rparr>, lg)"
  using assms by (simp add: analyze_record_def)

lemma blank_record_joined: "joined_text blank_record = Inr []"
  by (simp add: blank_record_def joined_text_def text_keys_def dict_get_def py_def strip_def py_isspace_def)

theorem empty_record_short_circuit_witness:
  "joined_text blank_record = Inr [] \<and>
   analyze_record blank_record failing_translator failing_scorer [] =
           (Inr \<lparr>date = JStr (py ''2024-05-01''), sentiment_score = 0,
                 sentiment_label = py ''neutral'', subjectivity = 0,
                 dominant_emotions = [py ''calm'']\<rparr>, [])"
  using empty_record_short_circuit[OF blank_record_joined, of failing_translator failing_scorer "[]"]
    blank_record_joined
  by (simp add: blank_record_def dict_get_def py_def)


lemma good_record_joined: "joined_text good_record = Inr (py ''good'' @ [10] @ py ''day'')"
  by (simp add: good_record_def joined_text_def text_keys_def dict_get_def py_def strip_def py_isspace_def)



text \<open>
  Claim C9. For a record that is not empty, whatever polarity \<open>p\<close> and subjectivity
  \<open>s\<close> the scorer returns on the translated text (or on the original one, when the
  translation failed), the analysis returns a day whose score is \<open>p\<close> clamped to
  \<open>[-1, 1]\<close> and whose subjectivity is \<open>s\<close> clamped to \<open>[0, 1]\<close>, each then rounded to
  three decimals as \<^verbatim>\<open>round\<close> does it, from the value of the double: both stay in their
  range, are a whole number of thousandths and are within half a thousandth of the value
  of the clamped double, which is within \<open>2 ^ -53\<close> of the decimal it prints as. The label
  and the emotions are computed from the clamped values before they are rounded.
\<close>

theorem stored_scores_clamped_rounded:
  assumes "joined_text r = Inr j" "j \<noteq> []"
    and "translate_ja_to_en j tr lg = (res, lg1)"
    and "t = (case res of Inl e \<Rightarrow> j | Inr x \<Rightarrow> x)"
    and "sc lg1 t = Inr (p, s)"
  shows "\<exists>day. analyze_record r tr sc lg = (Inr day, lg1 @ [Score t])
     \<and> date day = dict_get r (py ''date'') (JStr [])
     \<and> sentiment_score day = py_round3 (max (-1) (min 1 p))
     \<and> subjectivity day = py_round3 (max 0 (min 1 s))
     \<and> sentiment_label day = to_label (max (-1) (min 1 p))
     \<and> dominant_emotions day = to_emotions (max (-1) (min 1 p)) (max 0 (min 1 s))
     \<and> -1 \<le> sentiment_score day \<and> sentiment_score day \<le> 1
     \<and> 0 \<le> subjectivity day \<and> subjectivity day \<le> 1
     \<and> (\<exists>m::int. sentiment_score day = of_int m / 1000)
     \<and> (\<exists>m::int. subjectivity day = of_int m / 1000)
     \<and> \<bar>sentiment_score day - fl (max (-1) (min 1 p))\<bar> \<le> 1 / 2000
     \<and> \<bar>subjectivity day - fl (max 0 (min 1 s))\<bar> \<le> 1 / 2000
     \<and> \<bar>fl (max (-1) (min 1 p)) - max (-1) (min 1 p)\<bar> \<le> 1 / 2 ^ 53
     \<and> \<bar>fl (max 0 (min 1 s)) - max 0 (min 1 s)\<bar> \<le> 1 / 2 ^ 53"
proof -
  define cp where "cp = max (-1) (min 1 p)"
  define cs where "cs = max 0 (min 1 s)"
  define day where "day = \<lparr>date = dict_get r (py ''date'') (JStr []),
     sentiment_score = py_round3 cp, sentiment_label = to_label cp,
     subjectivity = py_round3 cs, dominant_emotions = to_emotions cp cs\<rparr>"
  have "score_text (dict_get r (py ''date'') (JStr [])) t sc lg1 = (Inr day, lg1 @ [Score t])"
    using assms(5) by (simp add: score_text_def Let_def day_def cp_def cs_def)
  then have run: "analyze_record r tr sc lg = (Inr day, lg1 @ [Score t])"
    using assms(1-4) by (cases res) (simp_all add: analyze_record_def)
  have cp: "-1 \<le> cp" "cp \<le> 1" and cs: "0 \<le> cs" "cs \<le> 1"
    by (auto simp: cp_def cs_def)
  then have a: "\<bar>cp\<bar> \<le> 1" "\<bar>cs\<bar> \<le> 1" by (simp_all add: abs_le_iff)
  have b1: "-1 \<le> py_round3 cp \<and> py_round3 cp \<le> 1"
    using cp by (rule py_round3_unit)
  have b2: "0 \<le> py_round3 cs \<and> py_round3 cs \<le> 1"
    using cs by (rule py_round3_unit)
  have c: "\<bar>py_round3 cp - fl cp\<bar> \<le> 1 / 2000" "\<bar>py_round3 cs - fl cs\<bar> \<le> 1 / 2000"
    using a by (simp_all only: py_round3_close)
  have e: "\<bar>fl cp - cp\<bar> \<le> 1 / 2 ^ 53" "\<bar>fl cs - cs\<bar> \<le> 1 / 2 ^ 53"
    using a fl_unit by blast+
  show ?thesis
    apply (rule exI[of _ day])
    using run b1 b2 py_round3_decimal[of cp] py_round3_decimal[of cs] c e
    by (simp add: day_def cp_def[symmetric] cs_def[symmetric])
qed

theorem stored_scores_clamped_rounded_witness:
  "joined_text good_record = Inr (py ''good'' @ [10] @ py ''day'')
   \<and> analyze_record good_record suffix_translator (constant_scorer 0.1996 1.7) [] =
       (Inr \<lparr>date = JStr (py ''2024-05-02''), sentiment_score = 0.2,
             sentiment_label = py ''neutral'', subjectivity = 1,
             dominant_emotions = [py ''calm'', py ''confidence'']\<rparr>,
        [Translate (py ''good'' @ [10] @ py ''day''), Score (py ''good'' @ [10] @ py ''day!'')])"
proof -
  let ?j = "py ''good'' @ [10] @ py ''day''"
  have j: "?j \<noteq> []" by (simp add: py_def)
  have t: "translate_ja_to_en ?j suffix_translator [] = (Inr (?j @ py ''!''), [Translate ?j])"
    by (simp add: translate_ja_to_en_def default_chunks_def chunk_text_def suffix_translator_def py_def)
  have s: "constant_scorer 0.1996 1.7 [Translate ?j] (?j @ py ''!'') = Inr (0.1996, 1.7)"
    by (simp add: constant_scorer_def)
  have r: "py_round3 (499 / 2500) = 1 / 5" "py_round3 1 = 1"
    by (rule py_round3_values)+
  have c: "?j @ py ''!'' = (case (Inr (?j @ py ''!'') :: error + pystr) of Inl e \<Rightarrow> ?j | Inr x \<Rightarrow> x)"
    by simp
  from stored_scores_clamped_rounded[where sc = "constant_scorer 0.1996 1.7" and p = "0.1996"
      and s = "1.7", OF good_record_joined j t c s]
  obtain day where day: "analyze_record good_record suffix_translator (constant_scorer 0.1996 1.7) []
       = (Inr day, [Translate ?j] @ [Score (?j @ py ''!'')])"
    "date day = dict_get good_record (py ''date'') (JStr [])"
    "sentiment_score day = py_round3 (max (-1) (min 1 0.1996))"
    "subjectivity day = py_round3 (max 0 (min 1 1.7))"
    "sentiment_label day = to_label (max (-1) (min 1 0.1996))"
    "dominant_emotions day = to_emotions (max (-1) (min 1 0.1996)) (max 0 (min 1 1.7))"
    by auto
  have "dict_get good_record (py ''date'') (JStr []) = JStr (py ''2024-05-02'')"
    by (simp add: good_record_def dict_get_def)
  with day show ?thesis
    using good_record_joined
    by (cases day) (simp add: r to_label_def to_emotions_def py_def)
qed

section \<open>Properties of the summary\<close>

text \<open>
  \<^verbatim>\<open>summarize\<close> raises KeyError on a label that is not one of the three; on days with
  the labels of the data model it returns.
\<close>

lemma inc_label_ok:
  "k \<in> fst ` set lc \<Longrightarrow> \<exists>lc'. inc_label lc k = Inr lc' \<and> map fst lc' = map fst lc"
  by (induction lc k rule: inc_label.induct) (force split: sum.splits)+

lemma tally_ok:
  "\<forall>d \<in> set ds. sentiment_label d \<in> fst ` set lc \<Longrightarrow>
   \<exists>lc'. tally ds lc ec
      = Inr (lc', fold (\<lambda>e acc. bump_emotion acc e) (concat (map dominant_emotions ds)) ec)
    \<and> map fst lc' = map fst lc"
proof (induction ds arbitrary: lc ec)
  case Nil
  then show ?case by simp
next
  case (Cons d ds)
  then obtain lc1 where 1: "inc_label lc (sentiment_label d) = Inr lc1" "map fst lc1 = map fst lc"
    using inc_label_ok[of "sentiment_label d" lc] by auto
  from 1(2) have "fst ` set lc1 = fst ` set lc" by (metis set_map)
  with Cons.prems have "\<forall>d \<in> set ds. sentiment_label d \<in> fst ` set lc1" by simp
  from Cons.IH[OF this] 1 show ?case by simp
qed


lemma summarize_ok:
  assumes "\<forall>d \<in> set ds. sentiment_label d \<in> {py ''positive'', py ''neutral'', py ''negative''}"
    and "ds \<noteq> []"
  shows "\<exists>lc. summarize py_sum ds =
     Inr \<lparr>days = length ds,
          average_sentiment =
            decimal3 (fdiv (py_sum (map (\<lambda>d. fl (sentiment_score d)) ds)) (length ds)),
          average_subjectivity =
            decimal3 (fdiv (py_sum (map (\<lambda>d. fl (subjectivity d)) ds)) (length ds)),
          label_counts = lc,
          trend = (if length ds \<ge> 4 then
                     (let delta =
                        fsub (fdiv (py_sum (map (\<lambda>d. fl (sentiment_score d))
                                              (drop (length ds div 2) ds)))
                                (max 1 (length ds - length ds div 2)))
                             (fdiv (py_sum (map (\<lambda>d. fl (sentiment_score d))
                                              (take (length ds div 2) ds)))
                                (max 1 (length ds div 2)))
                      in if delta > fl 0.12 then py ''improving''
                         else if delta < - fl 0.12 then py ''declining'' else py ''stable'')
                   else py ''stable''),
          most_common_emotions =
            take 3 (sorted_reverse snd
              (fold (\<lambda>e acc. bump_emotion acc e) (concat (map dominant_emotions ds)) []))\<rparr>"
proof -
  let ?lc0 = "[(py ''positive'', 0::nat), (py ''neutral'', 0), (py ''negative'', 0)]"
  have "\<forall>d \<in> set ds. sentiment_label d \<in> fst ` set ?lc0" using assms(1) by simp
  from tally_ok[OF this, of "[]"] obtain lc where
    "tally ds ?lc0 [] = Inr (lc, fold (\<lambda>e acc. bump_emotion acc e) (concat (map dominant_emotions ds)) [])"
    by blast
  with assms(2) show ?thesis
    by (simp add: summarize_def Let_def)
qed









lemma first_seen_append: "x \<in> set xs \<Longrightarrow> first_seen (xs @ ys) x = first_seen xs x"
  by (simp add: first_seen_def)

lemma first_seen_less: "x \<in> set xs \<Longrightarrow> first_seen xs x < length xs"
  by (induction xs) (auto simp: first_seen_def)

lemma first_seen_new: "x \<notin> set xs \<Longrightarrow> first_seen (xs @ [x]) x = length xs"
  by (induction xs) (auto simp: first_seen_def)

lemma bump_keys:
  "map fst (bump_emotion acc e) = (if e \<in> fst ` set acc then map fst acc else map fst acc @ [e])"
  by (induction acc e rule: bump_emotion.induct) (auto simp: image_iff)

lemma bump_map_of:
  "map_of (bump_emotion acc e) k =
     (if k = e then Some (case map_of acc e of None \<Rightarrow> 1 | Some n \<Rightarrow> n + 1) else map_of acc k)"
  by (induction acc e rule: bump_emotion.induct) auto

lemma tally_tags_snoc: "tally_tags (ts @ [e]) = bump_emotion (tally_tags ts) e"
  by (simp add: tally_tags_def)

lemma tally_tags_keys:
  "distinct (map fst (tally_tags ts)) \<and> set (map fst (tally_tags ts)) = set ts"
proof (induction ts rule: rev_induct)
  case Nil
  then show ?case by (simp add: tally_tags_def)
next
  case (snoc e ts)
  then show ?case by (auto simp: tally_tags_snoc bump_keys)
qed

lemma tally_tags_count:
  "map_of (tally_tags ts) t = (if t \<in> set ts then Some (count_list ts t) else None)"
proof (induction ts rule: rev_induct)
  case Nil
  then show ?case by (simp add: tally_tags_def)
next
  case (snoc e ts)
  then show ?case by (auto simp: tally_tags_snoc bump_map_of)
qed

lemma tally_tags_order:
  "sorted_wrt (\<lambda>a b. first_seen ts a < first_seen ts b) (map fst (tally_tags ts))"
proof (induction ts rule: rev_induct)
  case Nil
  then show ?case by (simp add: tally_tags_def)
next
  case (snoc e ts)
  have keys: "set (map fst (tally_tags ts)) = set ts" using tally_tags_keys by blast
  have old: "sorted_wrt (\<lambda>a b. first_seen (ts @ [e]) a < first_seen (ts @ [e]) b)
               (map fst (tally_tags ts))"
  proof (rule sorted_wrt_mono_rel[OF _ snoc.IH])
    fix a b assume "a \<in> set (map fst (tally_tags ts))" "b \<in> set (map fst (tally_tags ts))"
      "first_seen ts a < first_seen ts b"
    then show "first_seen (ts @ [e]) a < first_seen (ts @ [e]) b"
      using keys by (simp add: first_seen_append)
  qed
  show ?case
  proof (cases "e \<in> set ts")
    case True
    with keys have "e \<in> fst ` set (tally_tags ts)" by simp
    then show ?thesis using old by (simp add: tally_tags_snoc bump_keys)
  next
    case False
    with keys have nin: "e \<notin> fst ` set (tally_tags ts)" by simp
    have "first_seen (ts @ [e]) a < first_seen (ts @ [e]) e" if "a \<in> set ts" for a
      using that False first_seen_less[of a ts] by (simp add: first_seen_append first_seen_new)
    then show ?thesis
      using old nin keys by (simp add: tally_tags_snoc bump_keys sorted_wrt_append)
  qed
qed

lemma count_list_distinct:
  "distinct xs \<Longrightarrow> count_list xs t = (if t \<in> set xs then 1 else 0)"
  by (induction xs) auto

lemma count_tags_days:
  assumes "\<forall>d \<in> set ds. distinct (dominant_emotions d)"
  shows "count_list (all_tags ds) t = days_with t ds"
  using assms
proof (induction ds)
  case Nil
  then show ?case by (simp add: all_tags_def days_with_def)
next
  case (Cons d ds)
  have "count_list (dominant_emotions d) t = (if t \<in> set (dominant_emotions d) then 1 else 0)"
    using Cons.prems by (simp add: count_list_distinct)
  with Cons show ?case by (simp add: all_tags_def days_with_def)
qed

text \<open>A stable sort by a key orders equal keys as they were.\<close>

lemma stable_sorted_wrt:
  fixes f :: "'a \<Rightarrow> 'k::linorder"
  assumes "\<And>k. sorted_wrt Q (filter (\<lambda>y. f y = k) xs)"
    and "sorted_wrt (\<lambda>a b. f a \<ge> f b) xs"
  shows "sorted_wrt (\<lambda>a b. f a > f b \<or> (f a = f b \<and> Q a b)) xs"
  using assms
proof (induction xs)
  case Nil
  then show ?case by simp
next
  case (Cons x xs)
  have tl: "sorted_wrt Q (filter (\<lambda>y. f y = k) xs)" for k
    using Cons.prems(1)[of k] by (cases "f x = k") simp_all
  have hd: "f x > f y \<or> (f x = f y \<and> Q x y)" if "y \<in> set xs" for y
  proof (cases "f x = f y")
    case True
    from Cons.prems(1)[of "f x"] have "\<forall>z \<in> set (filter (\<lambda>y. f y = f x) xs). Q x z" by simp
    with that True show ?thesis by simp
  next
    case False
    with Cons.prems(2) that show ?thesis by (auto simp: less_le)
  qed
  from Cons.IH[OF tl] Cons.prems(2) hd show ?case by simp
qed

lemma sorted_reverse_props:
  fixes f :: "'a \<Rightarrow> 'k::linorder"
  assumes "sorted_wrt Q xs"
  shows "sorted_wrt (\<lambda>a b. f a > f b \<or> (f a = f b \<and> Q a b)) (sorted_reverse f xs)"
    and "set (sorted_reverse f xs) = set xs"
    and "distinct (sorted_reverse f xs) = distinct xs"
    and "length (sorted_reverse f xs) = length xs"
proof -
  have st: "filter (\<lambda>y. f y = k) (sorted_reverse f xs) = filter (\<lambda>y. f y = k) xs" for k
    by (simp add: sorted_reverse_def rev_filter[symmetric] sort_key_stable)
  have 1: "sorted_wrt Q (filter (\<lambda>y. f y = k) (sorted_reverse f xs))" for k
    unfolding st using assms by (rule sorted_wrt_filter)
  have "sorted (map f (sort_key f (rev xs)))" by simp
  then have "sorted_wrt (\<lambda>a b. f a \<le> f b) (sort_key f (rev xs))"
    by (simp add: sorted_wrt_map)
  then have 2: "sorted_wrt (\<lambda>a b. f a \<ge> f b) (sorted_reverse f xs)"
    by (simp add: sorted_reverse_def sorted_wrt_rev)
  from 1 2 show "sorted_wrt (\<lambda>a b. f a > f b \<or> (f a = f b \<and> Q a b)) (sorted_reverse f xs)"
    by (rule stable_sorted_wrt)
  show "set (sorted_reverse f xs) = set xs" "distinct (sorted_reverse f xs) = distinct xs"
    "length (sorted_reverse f xs) = length xs"
    by (simp_all add: sorted_reverse_def)
qed

lemma distinct_map_insort_key:
  "distinct (map g (insort_key f x xs)) = (g x \<notin> g ` set xs \<and> distinct (map g xs))"
  by (induction xs) (auto simp: set_insort_key)

lemma distinct_map_sort_key: "distinct (map g (sort_key f xs)) = distinct (map g xs)"
  by (induction xs) (simp_all add: distinct_map_insort_key)

lemma distinct_map_sorted_reverse:
  "distinct (map g (sorted_reverse f xs)) = distinct (map g xs)"
proof -
  have "distinct (map g (sorted_reverse f xs)) = distinct (rev (map g (sort_key f (rev xs))))"
    by (simp only: sorted_reverse_def rev_map)
  also have "\<dots> = distinct (map g (rev xs))"
    by (simp only: distinct_rev distinct_map_sort_key)
  also have "\<dots> = distinct (rev (map g xs))"
    by (simp only: rev_map)
  finally show ?thesis by simp
qed

text \<open>
  Claim C8. On days with the labels of the data model, each with no tag twice, the most
  common emotions are the first three (or fewer) entries of the ranking of all tags: every
  tag once, with the number of days that carry it, a larger count first and, for equal
  counts, the tag first seen earlier in the scan of the days first.
\<close>

theorem most_common_emotions_ranked:
  assumes "\<forall>d \<in> set ds. sentiment_label d \<in> {py ''positive'', py ''neutral'', py ''negative''}"
    and "\<forall>d \<in> set ds. distinct (dominant_emotions d)"
  shows "\<exists>s full. summarize py_sum ds = Inr s
    \<and> most_common_emotions s = take 3 full
    \<and> length (most_common_emotions s) \<le> 3
    \<and> distinct (map fst full) \<and> set (map fst full) = set (all_tags ds)
    \<and> (\<forall>(t, c) \<in> set full. c = days_with t ds)
    \<and> sorted_wrt (ranks_before (all_tags ds)) full
    \<and> sorted_wrt (ranks_before (all_tags ds)) (most_common_emotions s)"
proof -
  define ts where "ts = all_tags ds"
  define full where "full = sorted_reverse snd (tally_tags ts)"
  have keys: "distinct (map fst (tally_tags ts))" "set (map fst (tally_tags ts)) = set ts"
    using tally_tags_keys[of ts] by auto
  have "sorted_wrt (\<lambda>a b. first_seen ts (fst a) < first_seen ts (fst b)) (tally_tags ts)"
    using tally_tags_order[of ts] by (simp add: sorted_wrt_map)
  from sorted_reverse_props[OF this, of snd]
  have ranked: "sorted_wrt (ranks_before ts) full" and set_full: "set full = set (tally_tags ts)"
    unfolding full_def ranks_before_def by auto
  have d: "distinct (map fst full)"
    using keys(1) by (simp add: full_def distinct_map_sorted_reverse)
  have s: "set (map fst full) = set ts"
    using keys(2) set_full by simp
  have c: "c = days_with t ds" if "(t, c) \<in> set full" for t c
  proof -
    from that set_full have "(t, c) \<in> set (tally_tags ts)" by simp
    with keys(1) have "map_of (tally_tags ts) t = Some c" by simp
    then have "c = count_list ts t" by (simp add: tally_tags_count split: if_splits)
    then show ?thesis using assms(2) by (simp add: ts_def count_tags_days)
  qed
  have top: "sorted_wrt (ranks_before ts) (take 3 full)"
    using ranked by (rule sorted_wrt_take)
  have "\<exists>s. summarize py_sum ds = Inr s \<and> most_common_emotions s = take 3 full"
  proof (cases "ds = []")
    case True
    then show ?thesis
      by (simp add: summarize_def full_def ts_def all_tags_def tally_tags_def sorted_reverse_def)
  next
    case False
    from summarize_ok[OF assms(1) False, of py_sum] show ?thesis
      by (auto simp: full_def ts_def all_tags_def tally_tags_def)
  qed
  then obtain s where "summarize py_sum ds = Inr s" "most_common_emotions s = take 3 full"
    by blast
  with d s c ranked top show ?thesis
    unfolding ts_def by (intro exI[of _ s] exI[of _ full]) auto
qed

theorem most_common_emotions_ranked_witness:
  "\<exists>s. summarize naive_sum mixed_days = Inr s
     \<and> most_common_emotions s = [(py ''calm'', 3), (py ''joy'', 2), (py ''confidence'', 2)]
     \<and> days_with (py ''joy'') mixed_days = 2
     \<and> first_seen (all_tags mixed_days) (py ''joy'') = 2
     \<and> first_seen (all_tags mixed_days) (py ''confidence'') = 3"
  using most_common_emotions_ranked[of mixed_days naive_sum]
  by (auto simp: mixed_days_def rising_days_def summarize_def sorted_reverse_def py_def
      days_with_def first_seen_def all_tags_def)

section \<open>Falsy fields and missing dates\<close>

text \<open>
  The analysis reads a record only through \<^verbatim>\<open>get\<close> on the date and on the four text
  keys, and a text field only through \<^verbatim>\<open>_norm_text\<close>.
\<close>

lemma norm_fields_cong:
  "\<forall>k \<in> set ks. norm_text (dict_get r1 k (JStr [])) = norm_text (dict_get r2 k (JStr []))
     \<Longrightarrow> norm_fields r1 ks = norm_fields r2 ks"
  by (induction ks) (auto simp del: norm_text.simps split: sum.splits)

lemma analyze_record_cong:
  assumes "\<forall>k \<in> set text_keys.
             norm_text (dict_get r1 k (JStr [])) = norm_text (dict_get r2 k (JStr []))"
    and "dict_get r1 (py ''date'') (JStr []) = dict_get r2 (py ''date'') (JStr [])"
  shows "analyze_record r1 tr sc lg = analyze_record r2 tr sc lg"
  using norm_fields_cong[OF assms(1)] assms(2)
  by (simp add: analyze_record_def joined_text_def)

lemma map_of_filter_key:
  "map_of (filter (\<lambda>kv. fst kv \<noteq> k) r) k' = (if k' = k then None else map_of r k')"
  by (induction r) auto

lemma date_not_text_key: "py ''date'' \<notin> set text_keys"
  by (simp add: text_keys_def py_def)

lemma norm_text_falsy: "\<not> truthy v \<Longrightarrow> norm_text v = Inr []"
  by simp

lemma norm_fields_total:
  "\<forall>k \<in> set ks. case map_of r k of None \<Rightarrow> True | Some v \<Rightarrow> \<not> truthy v \<or> is_str v
     \<Longrightarrow> \<exists>ps. norm_fields r ks = Inr ps"
proof (induction ks)
  case Nil
  then show ?case by simp
next
  case (Cons k ks)
  then obtain ps where ps: "norm_fields r ks = Inr ps" by auto
  have "\<exists>s. norm_text (dict_get r k (JStr [])) = Inr s"
  proof (cases "map_of r k")
    case None
    then show ?thesis by (simp add: dict_get_def)
  next
    case (Some v)
    with Cons.prems have "\<not> truthy v \<or> is_str v" by simp
    then show ?thesis using Some by (cases v) (auto simp: dict_get_def)
  qed
  with ps show ?case by (auto simp del: norm_text.simps)
qed

lemma norm_fields_falsy:
  "\<forall>k \<in> set ks. case map_of r k of None \<Rightarrow> True | Some v \<Rightarrow> \<not> truthy v
     \<Longrightarrow> norm_fields r ks = Inr (map (\<lambda>k. []) ks)"
proof (induction ks)
  case Nil
  then show ?case by simp
next
  case (Cons k ks)
  then have "norm_text (dict_get r k (JStr [])) = Inr []"
    by (cases "map_of r k") (auto simp: dict_get_def)
  with Cons show ?case by (simp del: norm_text.simps)
qed

lemma analyze_record_date:
  "analyze_record r tr sc lg = (Inr day, lg') \<Longrightarrow> date day = dict_get r (py ''date'') (JStr [])"
  by (auto simp: analyze_record_def score_text_def Let_def
      split: sum.splits prod.splits if_splits)

lemma analyze_all_dates:
  "analyze_all xs tr sc acc lg = (Inr res, lg') \<Longrightarrow>
     \<exists>new. res = acc @ new
       \<and> map date new = map (\<lambda>x. dict_get (dict_of x) (py ''date'') (JStr [])) (filter is_dict xs)"
proof (induction xs arbitrary: acc lg)
  case Nil
  then show ?case by simp
next
  case (Cons x xs)
  show ?case
  proof (cases x)
    case (JDict r)
    with Cons.prems obtain d lg1 where 1: "analyze_record r tr sc lg = (Inr d, lg1)"
      and 2: "analyze_all xs tr sc (acc @ [d]) lg1 = (Inr res, lg')"
      by (auto split: sum.splits prod.splits)
    from Cons.IH[OF 2] obtain new where "res = (acc @ [d]) @ new"
      "map date new = map (\<lambda>x. dict_get (dict_of x) (py ''date'') (JStr [])) (filter is_dict xs)"
      by blast
    with analyze_record_date[OF 1] JDict show ?thesis
      by (intro exI[of _ "d # new"]) simp
  qed (use Cons in auto)
qed

lemma insort_day_set:
  "set (insort_day x ys) = insert x (set ys)" "length (insort_day x ys) = Suc (length ys)"
  by (induction ys) auto

lemma foldr_insort_day_set:
  "set (foldr insort_day ds []) = set ds" "length (foldr insort_day ds []) = length ds"
  by (induction ds) (simp_all add: insort_day_set)

lemma sort_days_set:
  "sort_days ds = Inr ds' \<Longrightarrow> set ds' = set ds \<and> length ds' = length ds"
  by (auto simp: sort_days_def foldr_insort_day_set split: if_splits)

text \<open>
  When every date is a string, the sort returns the days in the order of their dates, days
  of the same date in the order they had.
\<close>

lemma insort_day_strings:
  "is_str (date x) \<Longrightarrow> \<forall>d \<in> set ys. is_str (date d) \<Longrightarrow>
     insort_day x ys = insort_key (\<lambda>d. str_of (date d)) x ys"
proof (induction ys)
  case Nil
  then show ?case by simp
next
  case (Cons y ys)
  then obtain a b where "date x = JStr a" "date y = JStr b"
    by (cases "date x"; cases "date y") auto
  with Cons show ?case by (auto simp: not_less)
qed

lemma comparable_strings:
  "\<forall>d \<in> set ds. is_str (date d) \<Longrightarrow> comparable_dates ds"
proof -
  have "\<not> isl (py_lt a b)" if "is_str a" "is_str b" for a b
    using that by (cases a; cases b) auto
  then show "\<forall>d \<in> set ds. is_str (date d) \<Longrightarrow> comparable_dates ds"
    by (auto simp: comparable_dates_def list_all_iff)
qed

lemma sort_days_strings:
  assumes "\<forall>d \<in> set ds. is_str (date d)"
  shows "sort_days ds = Inr (sort_key (\<lambda>d. str_of (date d)) ds)"
proof -
  have "foldr insort_day ds [] = sort_key (\<lambda>d. str_of (date d)) ds"
    using assms
  proof (induction ds)
    case Nil
    then show ?case by simp
  next
    case (Cons d ds)
    then have "\<forall>e \<in> set (sort_key (\<lambda>d. str_of (date d)) ds). is_str (date e)" by simp
    with Cons show ?case by (simp add: insort_day_strings)
  qed
  moreover have "sort_key (\<lambda>d. str_of (date d)) ds = ds" if "length ds \<le> 1"
    using that by (cases ds) auto
  ultimately show ?thesis
    using comparable_strings[OF assms] by (auto simp: sort_days_def)
qed

text \<open>
  Claim C10. A text field that is present with a falsy value (null, false, 0, an empty
  string, list or dict) is analysed as if the key were absent; when every text field is
  absent, falsy or a string, normalisation raises nothing, and when all four are absent or
  falsy the result is the default day, with no capability called. A record without a
  \<open>date\<close> key is analysed as the record with the date \<open>""\<close>: the day it gives has the
  empty string as its date; and in a run that writes its output, the timeline has one day
  for each dict among the records, the day of the undated record with the empty date
  among them.
\<close>

theorem falsy_field_as_absent:
  "(k \<in> set text_keys \<and> map_of r k = Some v \<and> \<not> truthy v
      \<longrightarrow> analyze_record r tr sc lg
            = analyze_record (filter (\<lambda>kv. fst kv \<noteq> k) r) tr sc lg)
   \<and> ((\<forall>k \<in> set text_keys. case map_of r k of None \<Rightarrow> True
                                | Some v \<Rightarrow> \<not> truthy v \<or> is_str v)
      \<longrightarrow> (\<exists>j. joined_text r = Inr j))
   \<and> ((\<forall>k \<in> set text_keys. case map_of r k of None \<Rightarrow> True | Some v \<Rightarrow> \<not> truthy v)
      \<longrightarrow> analyze_record r tr sc lg =
            (Inr \<lparr>date = dict_get r (py ''date'') (JStr []), sentiment_score = 0,
                  sentiment_label = py ''neutral'', subjectivity = 0,
                  dominant_emotions = [py ''calm'']\<rparr>, lg))
   \<and> (map_of r (py ''date'') = None
      \<longrightarrow> analyze_record r tr sc lg = analyze_record ((py ''date'', JStr []) # r) tr sc lg
          \<and> (\<forall>day lg'. analyze_record r tr sc lg = (Inr day, lg') \<longrightarrow> date day = JStr []))
   \<and> (map_of p (py ''records'') = Some (JList xs) \<and> JDict r \<in> set xs
        \<and> map_of r (py ''date'') = None \<and> main py_sum (JDict p) tr sc = (Inr out, lg'')
      \<longrightarrow> (\<exists>day \<in> set (timeline out). date day = JStr [])
          \<and> length (timeline out) = length (filter is_dict xs))"
proof (intro conjI impI)
  assume a: "k \<in> set text_keys \<and> map_of r k = Some v \<and> \<not> truthy v"
  show "analyze_record r tr sc lg = analyze_record (filter (\<lambda>kv. fst kv \<noteq> k) r) tr sc lg"
  proof (rule analyze_record_cong)
    show "\<forall>k' \<in> set text_keys. norm_text (dict_get r k' (JStr []))
            = norm_text (dict_get (filter (\<lambda>kv. fst kv \<noteq> k) r) k' (JStr []))"
      using a by (auto simp: dict_get_def map_of_filter_key)
    have "k \<noteq> py ''date''" using a date_not_text_key by auto
    then show "dict_get r (py ''date'') (JStr [])
            = dict_get (filter (\<lambda>kv. fst kv \<noteq> k) r) (py ''date'') (JStr [])"
      by (simp add: dict_get_def map_of_filter_key)
  qed
next
  assume "\<forall>k \<in> set text_keys. case map_of r k of None \<Rightarrow> True
                                | Some v \<Rightarrow> \<not> truthy v \<or> is_str v"
  from norm_fields_total[OF this] show "\<exists>j. joined_text r = Inr j"
    by (auto simp: joined_text_def)
next
  assume "\<forall>k \<in> set text_keys. case map_of r k of None \<Rightarrow> True | Some v \<Rightarrow> \<not> truthy v"
  from norm_fields_falsy[OF this] have "joined_text r = Inr []"
    by (simp add: joined_text_def text_keys_def strip_def py_isspace_def)
  then show "analyze_record r tr sc lg =
            (Inr \<lparr>date = dict_get r (py ''date'') (JStr []), sentiment_score = 0,
                  sentiment_label = py ''neutral'', subjectivity = 0,
                  dominant_emotions = [py ''calm'']\<rparr>, lg)"
    by (simp add: analyze_record_def)
next
  assume a: "map_of r (py ''date'') = None"
  show "analyze_record r tr sc lg = analyze_record ((py ''date'', JStr []) # r) tr sc lg"
  proof (rule analyze_record_cong)
    show "\<forall>k \<in> set text_keys. norm_text (dict_get r k (JStr []))
            = norm_text (dict_get ((py ''date'', JStr []) # r) k (JStr []))"
      using date_not_text_key by (auto simp: dict_get_def)
    show "dict_get r (py ''date'') (JStr [])
            = dict_get ((py ''date'', JStr []) # r) (py ''date'') (JStr [])"
      using a by (simp add: dict_get_def)
  qed
next
  assume a: "map_of r (py ''date'') = None"
  show "\<forall>day lg'. analyze_record r tr sc lg = (Inr day, lg') \<longrightarrow> date day = JStr []"
    using analyze_record_date[of r tr sc lg] a by (auto simp: dict_get_def)
next
  assume a: "map_of p (py ''records'') = Some (JList xs) \<and> JDict r \<in> set xs
        \<and> map_of r (py ''date'') = None \<and> main py_sum (JDict p) tr sc = (Inr out, lg'')"
  then obtain analyzed lg1 where 1: "analyze_all xs tr sc [] [] = (Inr analyzed, lg1)"
    and 2: "sort_days analyzed = Inr (timeline out)"
    by (auto simp: main_def dict_get_def split: sum.splits prod.splits)
  from analyze_all_dates[OF 1] have dates:
    "map date analyzed = map (\<lambda>x. dict_get (dict_of x) (py ''date'') (JStr [])) (filter is_dict xs)"
    by simp
  from sort_days_set[OF 2] have s: "set (timeline out) = set analyzed"
    "length (timeline out) = length analyzed" by auto
  from a have "JDict r \<in> set (filter is_dict xs)" by simp
  then have "dict_get r (py ''date'') (JStr []) \<in> set (map date analyzed)"
    unfolding dates by force
  then have "JStr [] \<in> date ` set analyzed" using a by (simp add: dict_get_def)
  with s show "\<exists>day \<in> set (timeline out). date day = JStr []" by auto
  from dates have "length analyzed = length (filter is_dict xs)"
    by (metis length_map)
  with s show "length (timeline out) = length (filter is_dict xs)" by simp
qed

lemma undated_record_joined:
  "joined_text undated_record = Inr (py ''good'' @ [10] @ py ''day'')"
  by (simp add: undated_record_def joined_text_def text_keys_def dict_get_def py_def strip_def
      py_isspace_def)

lemma undated_record_analysis:
  "analyze_record undated_record suffix_translator (constant_scorer 0.5 0.25) [] =
     (Inr \<lparr>date = JStr [], sentiment_score = 0.5, sentiment_label = py ''positive'',
           subjectivity = 0.25, dominant_emotions = [py ''calm'', py ''confidence'']\<rparr>,
      [Translate (py ''good'' @ [10] @ py ''day''),
       Score ((py ''good'' @ [10] @ py ''day'') @ py ''!'')])"
proof -
  let ?j = "py ''good'' @ [10] @ py ''day''"
  have j: "?j \<noteq> []" by (simp add: py_def)
  have t: "translate_ja_to_en ?j suffix_translator [] = (Inr (?j @ py ''!''), [Translate ?j])"
    by (simp add: translate_ja_to_en_def default_chunks_def chunk_text_def
        suffix_translator_def py_def)
  have d: "dict_get undated_record (py ''date'') (JStr []) = JStr []"
    by (simp add: undated_record_def dict_get_def py_def)
  have r: "py_round3 (1 / 2) = 1 / 2" "py_round3 (1 / 4) = 1 / 4"
    by (rule py_round3_values)+
  show ?thesis
    using j t d r undated_record_joined
    by (simp add: analyze_record_def score_text_def constant_scorer_def to_label_def
        to_emotions_def)
qed

lemma undated_run:
  "\<exists>s lg. main naive_sum (JDict [(py ''records'', JList [JDict undated_record, JNull])])
            suffix_translator (constant_scorer 0.5 0.25)
      = (Inr \<lparr>summary = s,
              timeline = [\<lparr>date = JStr [], sentiment_score = 0.5,
                           sentiment_label = py ''positive'', subjectivity = 0.25,
                           dominant_emotions = [py ''calm'', py ''confidence'']\<rparr>]\<rparr>, lg)"
  using undated_record_analysis
  by (simp add: main_def dict_get_def sort_days_def summarize_def)

theorem falsy_field_as_absent_witness:
  "analyze_record undated_record suffix_translator (constant_scorer 0.5 0.25) []
     = analyze_record (filter (\<lambda>kv. fst kv \<noteq> py ''reflection'') undated_record)
         suffix_translator (constant_scorer 0.5 0.25) []
   \<and> (\<exists>j. joined_text undated_record = Inr j)
   \<and> analyze_record [(py ''reflection'', JNull)] failing_translator failing_scorer []
       = (Inr \<lparr>date = JStr [], sentiment_score = 0, sentiment_label = py ''neutral'',
               subjectivity = 0, dominant_emotions = [py ''calm'']\<rparr>, [])
   \<and> analyze_record undated_record suffix_translator (constant_scorer 0.5 0.25) []
       = analyze_record ((py ''date'', JStr []) # undated_record)
           suffix_translator (constant_scorer 0.5 0.25) []
   \<and> (\<exists>out lg. main naive_sum (JDict [(py ''records'', JList [JDict undated_record, JNull])])
                  suffix_translator (constant_scorer 0.5 0.25) = (Inr out, lg)
         \<and> (\<exists>day \<in> set (timeline out). date day = JStr [])
         \<and> length (timeline out) = 1)"
proof -
  let ?tr = suffix_translator and ?sc = "constant_scorer 0.5 0.25"
  let ?p = "[(py ''records'', JList [JDict undated_record, JNull])]"
  have nodate: "map_of undated_record (py ''date'') = None"
    by (simp add: undated_record_def py_def)
  have refl: "py ''reflection'' \<in> set text_keys
      \<and> map_of undated_record (py ''reflection'') = Some JNull \<and> \<not> truthy JNull"
    by (simp add: text_keys_def undated_record_def py_def)
  have fields: "\<forall>k \<in> set text_keys. case map_of undated_record k of None \<Rightarrow> True
                   | Some v \<Rightarrow> \<not> truthy v \<or> is_str v"
    by (simp add: text_keys_def undated_record_def py_def)
  have falsy: "\<forall>k \<in> set text_keys. case map_of [(py ''reflection'', JNull)] k of
                   None \<Rightarrow> True | Some v \<Rightarrow> \<not> truthy v"
    by (simp add: text_keys_def)
  obtain out lg where run: "main naive_sum (JDict ?p) ?tr ?sc = (Inr out, lg)"
    using undated_run by blast
  have recs: "map_of ?p (py ''records'') = Some (JList [JDict undated_record, JNull])
      \<and> JDict undated_record \<in> set [JDict undated_record, JNull]"
    by simp
  note T1 = falsy_field_as_absent[where k = "py ''reflection''" and r = undated_record
      and v = JNull and tr = ?tr and sc = ?sc and lg = "[]" and p = ?p
      and xs = "[JDict undated_record, JNull]" and out = out and lg'' = lg
      and py_sum = naive_sum]
  note T2 = falsy_field_as_absent[where r = "[(py ''reflection'', JNull)]"
      and tr = failing_translator and sc = failing_scorer and lg = "[]"]
  have 1: "analyze_record undated_record ?tr ?sc []
     = analyze_record (filter (\<lambda>kv. fst kv \<noteq> py ''reflection'') undated_record) ?tr ?sc []"
    using T1 refl by blast
  have 2: "\<exists>j. joined_text undated_record = Inr j"
    using T1 fields by blast
  have 3: "analyze_record [(py ''reflection'', JNull)] failing_translator failing_scorer []
       = (Inr \<lparr>date = dict_get [(py ''reflection'', JNull)] (py ''date'') (JStr []),
               sentiment_score = 0, sentiment_label = py ''neutral'',
               subjectivity = 0, dominant_emotions = [py ''calm'']\<rparr>, [])"
    using T2 falsy by blast
  have 4: "analyze_record undated_record ?tr ?sc []
       = analyze_record ((py ''date'', JStr []) # undated_record) ?tr ?sc []"
    using T1 nodate by blast
  have 5: "(\<exists>day \<in> set (timeline out). date day = JStr [])
      \<and> length (timeline out) = length (filter is_dict [JDict undated_record, JNull])"
    using T1 recs nodate run by blast
  have d: "dict_get [(py ''reflection'', JNull)] (py ''date'') (JStr []) = JStr []"
    by (simp add: dict_get_def py_def)
  from 1 2 3 4 5 run show ?thesis
    unfolding d by (intro conjI; (assumption | force))
qed

section \<open>The days of a run\<close>

text \<open>A translator that fails on every call makes the translation of any text fail.\<close>

lemma default_chunks_nonempty: "default_chunks text \<noteq> []"
proof (cases "int (length text) \<le> 3000")
  case True
  then show ?thesis by (simp add: default_chunks_def chunk_text_def)
next
  case False
  then have "chunk_text text 3000 = Some (chop (nat 3000) text)"
    by (intro chunk_text_chop) simp_all
  moreover from False have "text \<noteq> []" by auto
  then have "chop (nat 3000) text \<noteq> []" by (subst chop.simps) simp
  ultimately show ?thesis by (simp add: default_chunks_def)
qed

lemma always_failing_translation:
  assumes "\<And>lg chunk. \<exists>e. tr lg chunk = Inl e"
  shows "\<exists>e lg'. translate_ja_to_en text tr lg = (Inl e, lg')"
proof -
  obtain c cs where cs: "default_chunks text = c # cs"
    using default_chunks_nonempty[of "text"] by (cases "default_chunks text") auto
  from assms obtain e where "tr lg c = Inl e" by blast
  then show ?thesis by (simp add: translate_ja_to_en_def cs)
qed

lemma classified_day_well_formed:
  "well_formed_day \<lparr>date = dt, sentiment_score = x, sentiment_label = to_label p,
     subjectivity = y, dominant_emotions = to_emotions p s\<rparr>"
  by (simp add: well_formed_day_def to_label_def to_emotions_def py_def)

lemma default_day_well_formed:
  "well_formed_day \<lparr>date = dt, sentiment_score = 0, sentiment_label = py ''neutral'',
     subjectivity = 0, dominant_emotions = [py ''calm'']\<rparr>"
  by (simp add: well_formed_day_def)

lemma score_text_well_formed:
  "score_text dt t sc lg = (Inr d, lg') \<Longrightarrow> well_formed_day d"
  by (auto simp: score_text_def Let_def classified_day_well_formed split: sum.splits)

lemma analyze_record_well_formed:
  assumes "analyze_record r tr sc lg = (Inr d, lg')"
  shows "well_formed_day d"
proof (cases "joined_text r")
  case (Inl e)
  with assms show ?thesis by (simp add: analyze_record_def)
next
  case (Inr j)
  show ?thesis
  proof (cases "j = []")
    case True
    with assms Inr show ?thesis
      by (auto simp: analyze_record_def default_day_well_formed)
  next
    case False
    obtain res lg1 where t: "translate_ja_to_en j tr lg = (res, lg1)"
      by (cases "translate_ja_to_en j tr lg")
    with assms Inr False show ?thesis
      by (cases res) (auto simp: analyze_record_def dest: score_text_well_formed)
  qed
qed

lemma analyze_all_well_formed:
  assumes "analyze_all xs tr sc acc lg = (Inr res, lg')"
    and "\<forall>d \<in> set acc. well_formed_day d"
  shows "\<forall>d \<in> set res. well_formed_day d"
  using assms
proof (induction xs arbitrary: acc lg)
  case Nil
  then show ?case by simp
next
  case (Cons x xs)
  show ?case
  proof (cases x)
    case (JDict r)
    with Cons.prems(1) obtain d lg1 where 1: "analyze_record r tr sc lg = (Inr d, lg1)"
      and 2: "analyze_all xs tr sc (acc @ [d]) lg1 = (Inr res, lg')"
      by (auto split: sum.splits prod.splits)
    from analyze_record_well_formed[OF 1] Cons.prems(2)
    have "\<forall>d \<in> set (acc @ [d]). well_formed_day d" by auto
    from Cons.IH[OF 2 this] show ?thesis .
  qed (use Cons in auto)
qed

text \<open>
  Every day of a timeline that a run writes has one of the three labels and no tag twice:
  the days the summarizer is given in a run are the ones the claims about it speak of.
\<close>

lemma timeline_well_formed:
  assumes "main py_sum payload tr sc = (Inr out, lg)"
  shows "\<forall>d \<in> set (timeline out). well_formed_day d"
proof -
  from assms obtain p where p: "payload = JDict p"
    by (cases payload) (simp_all add: main_def)
  with assms obtain xs where xs: "dict_get p (py ''records'') (JList []) = JList xs"
    by (cases "dict_get p (py ''records'') (JList [])") (simp_all add: main_def)
  with assms p obtain analyzed lg1 where 1: "analyze_all xs tr sc [] [] = (Inr analyzed, lg1)"
    and 2: "sort_days analyzed = Inr (timeline out)"
    by (auto simp: main_def split: sum.splits prod.splits)
  from analyze_all_well_formed[OF 1] sort_days_set[OF 2] show ?thesis by simp
qed

end
